theory Spec2Isabelle
  imports Complex_Main "HOL-Library.Sublist"
begin

section \<open>Strings, thrown values and characters\<close>

text \<open>
  A JavaScript string is modelled as a \<^typ>\<open>string\<close>: one \<^typ>\<open>char\<close> per code unit, for
  the code units 0 to 255. Every character class of the two regular expressions of
  \<^verbatim>\<open>pubsub.ts\<close> lies inside ASCII, so a code unit outside this range behaves like any
  other character outside the class.

  A thrown value is modelled by the message that the \<^verbatim>\<open>catch\<close> blocks extract from it
  (\<^verbatim>\<open>error instanceof Error ? error.message : String(error)\<close>). The source throws plain
  \<^verbatim>\<open>Error\<close> objects only: an error has a message and no kind.
\<close>

type_synonym thrown = string

definition dq :: char where
  "dq = CHR 0x22"

definition quoted :: "string \<Rightarrow> string" where
  "quoted s = dq # s @ [dq]"

definition code :: "char \<Rightarrow> nat" where
  "code c = of_char c"

definition is_lower :: "char \<Rightarrow> bool" where
  "is_lower c = (97 \<le> code c \<and> code c \<le> 122)"

definition is_upper :: "char \<Rightarrow> bool" where
  "is_upper c = (65 \<le> code c \<and> code c \<le> 90)"

definition is_digit :: "char \<Rightarrow> bool" where
  "is_digit c = (48 \<le> code c \<and> code c \<le> 57)"

section \<open>Regular expressions of the shape used by the source\<close>

text \<open>
  Both patterns of the source are anchored (\<^verbatim>\<open>^ ... $\<close>, no flags) sequences of
  quantified character classes. An item \<open>Rep P lo hi\<close> is the class \<open>P\<close> repeated at
  least \<open>lo\<close> and at most \<open>hi\<close> times (\<open>None\<close>: unbounded). \<open>rx_exec\<close> matches as the
  JavaScript engine does, greedily with backtracking: each item first takes as many
  characters as it may and gives characters back one at a time while the rest of the
  pattern fails. The result is the list of the substrings taken by the items, or
  \<open>None\<close> when there is no match. Without the \<^verbatim>\<open>m\<close> flag \<^verbatim>\<open>$\<close> is the end of the
  input, so the empty pattern matches the empty rest only.
\<close>

datatype rx_item = Rep "char \<Rightarrow> bool" nat "nat option"

fun first_down :: "(nat \<Rightarrow> 'a option) \<Rightarrow> nat \<Rightarrow> nat \<Rightarrow> 'a option" where
  "first_down f lo 0 = f lo"
| "first_down f lo (Suc k) =
     (case f (lo + Suc k) of Some r \<Rightarrow> Some r | None \<Rightarrow> first_down f lo k)"

primrec rx_exec :: "rx_item list \<Rightarrow> string \<Rightarrow> string list option" where
  "rx_exec [] s = (if s = [] then Some [] else None)"
| "rx_exec (it # its) s =
     (case it of Rep P lo hi \<Rightarrow>
        (let avail = length (takeWhile P s);
             top = (case hi of None \<Rightarrow> avail | Some h \<Rightarrow> min h avail)
         in if top < lo then None
            else first_down (\<lambda>n. map_option ((#) (take n s)) (rx_exec its (drop n s)))
                   lo (top - lo)))"

declare rx_exec.simps(2) [simp del]

definition rx_test :: "rx_item list \<Rightarrow> string \<Rightarrow> bool" where
  "rx_test p s = (rx_exec p s \<noteq> None)"

section \<open>validateTopicName\<close>

text \<open>
  \<^verbatim>\<open>/^[a-zA-Z][a-zA-Z0-9._~+%-]{2,254}$/\<close>: the last \<^verbatim>\<open>-\<close> of the second class is a
  literal.
\<close>

definition topic_head :: "char \<Rightarrow> bool" where
  "topic_head c = (is_lower c \<or> is_upper c)"

definition topic_tail :: "char \<Rightarrow> bool" where
  "topic_tail c = (is_lower c \<or> is_upper c \<or> is_digit c \<or> c \<in> set ''._~+%-'')"

definition topicPattern :: "rx_item list" where
  "topicPattern = [Rep topic_head 1 (Some 1), Rep topic_tail 2 (Some 254)]"

definition validateTopicName :: "string \<Rightarrow> thrown + unit" where
  "validateTopicName topicName =
     (if \<not> rx_test topicPattern topicName
      then Inl (''Invalid topic name: '' @ quoted topicName @ ''. '' @
                ''Topic names must start with a letter and be 3-255 characters long, '' @
                ''containing only letters, numbers, and ._~+%-'')
      else Inr ())"

text \<open>
  The rule in the words of the specification: the name starts with a letter, is 3 to 255
  characters long, and contains only letters, digits and the characters \<^verbatim>\<open>. _ ~ + % -\<close>.
\<close>

definition letters :: string where
  "letters = ''abcdefghijklmnopqrstuvwxyzABCDEFGHIJKLMNOPQRSTUVWXYZ''"

definition digits :: string where
  "digits = ''0123456789''"

definition spec_topic_name :: "string \<Rightarrow> bool" where
  "spec_topic_name s =
     (s \<noteq> [] \<and> hd s \<in> set letters \<and> 3 \<le> length s \<and> length s \<le> 255 \<and>
      list_all (\<lambda>x. x \<in> set letters \<or> x \<in> set digits \<or> x \<in> set ''._~+%-'') s)"

section \<open>Numbers\<close>

text \<open>
  A JavaScript number is an IEEE 754 double. The numbers of \<^verbatim>\<open>parseDuration\<close> are
  non-negative integers, \<open>Infinity\<close> or \<open>NaN\<close>. \<open>to_double n\<close> is the double nearest to
  the integer \<open>n\<close> (53 significant bits, ties to the even significand); integers below
  \<open>2 ^ 53\<close> are doubles themselves. A result of \<open>2 ^ 1024\<close> or more is \<open>Infinity\<close>.
\<close>

datatype jsnum = Num nat | Infinity | NaN

fun bitlen :: "nat \<Rightarrow> nat" where
  "bitlen n = (if n = 0 then 0 else Suc (bitlen (n div 2)))"

declare bitlen.simps [simp del]

definition to_double :: "nat \<Rightarrow> nat" where
  "to_double n =
     (if n < 2 ^ 53 then n
      else (let q = 2 ^ (bitlen n - 53); m = n div q; r = n mod q
            in if 2 * r < q \<or> (2 * r = q \<and> even m) then m * q else (m + 1) * q))"

definition number :: "nat \<Rightarrow> jsnum" where
  "number n = (let r = to_double n in if r < 2 ^ 1024 then Num r else Infinity)"

fun jsmul :: "jsnum \<Rightarrow> jsnum \<Rightarrow> jsnum" where
  "jsmul (Num a) (Num b) = number (a * b)"
| "jsmul NaN _ = NaN"
| "jsmul _ NaN = NaN"
| "jsmul Infinity (Num b) = (if b = 0 then NaN else Infinity)"
| "jsmul (Num a) Infinity = (if a = 0 then NaN else Infinity)"
| "jsmul Infinity Infinity = Infinity"

text \<open>
  \<^verbatim>\<open>parseInt(text, 10)\<close> on a text without leading white space or sign: the value of
  the longest prefix of decimal digits, as a double, and \<open>NaN\<close> when there is none. Its
  only argument in the source is the first group of the duration pattern, which holds
  digits only.
\<close>

definition digit_val :: "char \<Rightarrow> nat" where
  "digit_val c = code c - 48"

definition parseInt10 :: "string \<Rightarrow> jsnum" where
  "parseInt10 s =
     (let ds = takeWhile is_digit s
      in if ds = [] then NaN else number (foldl (\<lambda>n c. 10 * n + digit_val c) 0 ds))"

text \<open>\<^verbatim>\<open>String(i)\<close> for an array index \<open>i\<close>: its decimal digits.\<close>

definition digit_char :: "nat \<Rightarrow> char" where
  "digit_char d = char_of (48 + d)"

fun show_nat :: "nat \<Rightarrow> string" where
  "show_nat n = (if n < 10 then [digit_char n] else show_nat (n div 10) @ [digit_char (n mod 10)])"

declare show_nat.simps [simp del]

section \<open>parseDuration\<close>

record Duration =
  seconds :: "jsnum option"
  nanos :: "jsnum option"

definition unit_char :: "char \<Rightarrow> bool" where
  "unit_char c = (c \<in> set ''dhms'')"

text \<open>\<^verbatim>\<open>/^(\d+)([dhms])$/\<close>; \<^verbatim>\<open>\d\<close> is \<^verbatim>\<open>[0-9]\<close>. Each item is one group.\<close>

definition durationPattern :: "rx_item list" where
  "durationPattern = [Rep is_digit 1 None, Rep unit_char 1 (Some 1)]"

text \<open>\<^verbatim>\<open>text.match(pattern)\<close>: the whole match followed by the groups, or \<open>None\<close> for \<^verbatim>\<open>null\<close>.\<close>

definition match :: "string \<Rightarrow> rx_item list \<Rightarrow> string list option" where
  "match s p = map_option ((#) s) (rx_exec p s)"

definition parseDuration :: "string \<Rightarrow> thrown + Duration" where
  "parseDuration duration =
     (case match duration durationPattern of
        None \<Rightarrow>
          Inl (''Invalid duration format: '' @ quoted duration @ ''. '' @
               ''Use format like '' @ quoted ''7d'' @ '' (days), '' @ quoted ''600s'' @
               '' (seconds), '' @ quoted ''1h'' @ '' (hours), or '' @ quoted ''30m'' @
               '' (minutes)'')
      | Some m \<Rightarrow>
          (let value = parseInt10 (m ! 1);
               unit = m ! 2;
               seconds =
                 (if unit = ''d'' then jsmul value (Num 86400)
                  else if unit = ''h'' then jsmul value (Num 3600)
                  else if unit = ''m'' then jsmul value (Num 60)
                  else if unit = ''s'' then value
                  else Num 0)
           in Inr \<lparr>seconds = Some seconds, nanos = None\<rparr>))"

text \<open>
  The rule in the words of the specification: one or more decimal digits followed by one
  of the units d, h, m, s; the result is the number written by the digits times the
  factor of the unit.
\<close>

definition spec_duration :: "string \<Rightarrow> bool" where
  "spec_duration s =
     (s \<noteq> [] \<and> butlast s \<noteq> [] \<and> list_all (\<lambda>c. c \<in> set digits) (butlast s) \<and>
      last s \<in> set ''dhms'')"

primrec decimal_rev :: "string \<Rightarrow> nat" where
  "decimal_rev [] = 0"
| "decimal_rev (c # cs) = digit_val c + 10 * decimal_rev cs"

definition spec_value :: "string \<Rightarrow> nat" where
  "spec_value s = decimal_rev (rev (butlast s))"

definition spec_factor :: "string \<Rightarrow> nat" where
  "spec_factor s =
     (if last s = CHR ''d'' then 86400 else if last s = CHR ''h'' then 3600
      else if last s = CHR ''m'' then 60 else 1)"

section \<open>parseLabels\<close>

text \<open>
  \<^verbatim>\<open>JSON.parse\<close> belongs to the language, not to the repository: it is a parameter
  \<open>JSON_parse\<close> of the model, giving the parsed value or the message of the
  \<^verbatim>\<open>SyntaxError\<close>. A parsed object is the list of its own properties in the order in which
  \<^verbatim>\<open>Object.entries\<close> enumerates them. The value of a number is never inspected.
\<close>

datatype jsval =
  JNull | JBool bool | JNumber real | JString string | JArray "jsval list"
  | JObject "(string \<times> jsval) list"

fun typeof :: "jsval \<Rightarrow> string" where
  "typeof JNull = ''object''"
| "typeof (JBool _) = ''boolean''"
| "typeof (JNumber _) = ''number''"
| "typeof (JString _) = ''string''"
| "typeof (JArray _) = ''object''"
| "typeof (JObject _) = ''object''"

text \<open>
  \<^verbatim>\<open>Object.entries\<close> throws a \<^verbatim>\<open>TypeError\<close> on \<^verbatim>\<open>null\<close>, finds no own property in a
  number or a boolean, and enumerates the characters of a string and the elements of an
  array under their indices.
\<close>

fun Object_entries :: "jsval \<Rightarrow> thrown + (string \<times> jsval) list" where
  "Object_entries JNull = Inl ''Cannot convert undefined or null to object''"
| "Object_entries (JBool _) = Inr []"
| "Object_entries (JNumber _) = Inr []"
| "Object_entries (JString s) = Inr (map (\<lambda>(i, c). (show_nat i, JString [c])) (enumerate 0 s))"
| "Object_entries (JArray xs) = Inr (map (\<lambda>(i, x). (show_nat i, x)) (enumerate 0 xs))"
| "Object_entries (JObject kvs) = Inr kvs"

type_synonym label_map = "string \<rightharpoonup> string"

text \<open>
  \<^verbatim>\<open>labels[key] = value\<close> on an object created by \<^verbatim>\<open>{}\<close>. The key \<^verbatim>\<open>__proto__\<close> is the
  accessor inherited from \<^verbatim>\<open>Object.prototype\<close>: assigning a string to it calls the
  setter, which ignores a value that is neither an object nor \<^verbatim>\<open>null\<close>, and no own
  property is created. Every other key becomes (or overwrites) an own property.
\<close>

definition assign :: "label_map \<Rightarrow> string \<Rightarrow> string \<Rightarrow> label_map" where
  "assign obj key v = (if key = ''__proto__'' then obj else obj(key \<mapsto> v))"

fun labels_loop :: "(string \<times> jsval) list \<Rightarrow> label_map \<Rightarrow> thrown + label_map" where
  "labels_loop [] labels = Inr labels"
| "labels_loop ((key, JString v) # es) labels = labels_loop es (assign labels key v)"
| "labels_loop ((key, val) # es) labels =
     Inl (''Label '' @ quoted key @ '' must be a string, got '' @ typeof val @ ''. '' @
          ''All labels must be strings.'')"

definition parseLabels :: "(string \<Rightarrow> thrown + jsval) \<Rightarrow> string \<Rightarrow> thrown + label_map" where
  "parseLabels JSON_parse labelsJson =
     (case (case JSON_parse labelsJson of
              Inl e \<Rightarrow> Inl e
            | Inr parsed \<Rightarrow>
                (case Object_entries parsed of
                   Inl e \<Rightarrow> Inl e
                 | Inr es \<Rightarrow> labels_loop es Map.empty)) of
        Inl errorMessage \<Rightarrow> Inl (''Failed to parse labels: '' @ errorMessage)
      | Inr labels \<Rightarrow> Inr labels)"

text \<open>
  What \<^verbatim>\<open>JSON.parse\<close> gives on the documents used as examples below; every other text
  is outside this table.
\<close>

definition JSON_parse_samples :: "string \<Rightarrow> thrown + jsval" where
  "JSON_parse_samples s =
     (if s = ''null'' then Inr JNull
      else if s = ''5'' then Inr (JNumber 5)
      else if s = ''true'' then Inr (JBool True)
      else if s = quoted ''ab'' then Inr (JString ''ab'')
      else if s = ''{'' @ quoted ''a'' @ '':'' @ quoted ''1'' @ '','' @ quoted ''b'' @ '':'' @
                quoted ''2'' @ ''}''
        then Inr (JObject [(''a'', JString ''1''), (''b'', JString ''2'')])
      else if s = ''{'' @ quoted ''a'' @ '':1}'' then Inr (JObject [(''a'', JNumber 1)])
      else if s = ''{'' @ quoted ''__proto__'' @ '':'' @ quoted ''x'' @ ''}''
        then Inr (JObject [(''__proto__'', JString ''x'')])
      else Inl (''Unexpected token in JSON: '' @ s))"

section \<open>The Pub/Sub client\<close>

text \<open>
  The client library is a collaborator outside the repository: the model takes it as a
  parameter. \<open>'s\<close> is the state of the service, \<open>'h\<close> the type of a topic handle.
  Each operation may throw. \<^verbatim>\<open>pubsub.topic(name)\<close> builds a handle without calling the
  service; \<^verbatim>\<open>topic.exists()\<close> reads the state; \<^verbatim>\<open>pubsub.createTopic(name)\<close> and
  \<^verbatim>\<open>topic.setMetadata(metadata)\<close> return the new state with their answer;
  \<^verbatim>\<open>topic.name\<close> is the fully-qualified name of a handle.
\<close>

record Metadata =
  md_labels :: "label_map option"
  md_kmsKeyName :: "string option"
  md_messageRetentionDuration :: "Duration option"

record ('s, 'h) PubSub =
  ps_topic :: "string \<Rightarrow> thrown + 'h"
  ps_exists :: "'s \<Rightarrow> 'h \<Rightarrow> thrown + bool"
  ps_createTopic :: "'s \<Rightarrow> string \<Rightarrow> (thrown + 'h) \<times> 's"
  ps_setMetadata :: "'s \<Rightarrow> 'h \<Rightarrow> Metadata \<Rightarrow> (thrown + unit) \<times> 's"
  ps_name :: "'h \<Rightarrow> string"

text \<open>The calls that reach the service, each with its answer, in the order made.\<close>

datatype 'h call =
  TopicExists 'h "thrown + bool"
  | CreateTopic string "thrown + 'h"
  | SetMetadata 'h Metadata "thrown + unit"

text \<open>
  The lines written by \<^verbatim>\<open>core.warning\<close> and \<^verbatim>\<open>core.error\<close>. The informational lines
  of \<^verbatim>\<open>core.info\<close> influence nothing and are left out.
\<close>

datatype log_line = Warning string | ErrorLine string

section \<open>checkTopicExists\<close>

record 'h ExistsCheck =
  exists :: bool
  topic :: "'h option"

text \<open>The body of the \<^verbatim>\<open>try\<close> block, then the function with its \<^verbatim>\<open>catch\<close>.\<close>

definition checkTopicExists_try ::
  "('s, 'h) PubSub \<Rightarrow> 's \<Rightarrow> string \<Rightarrow> (thrown + 'h ExistsCheck) \<times> 'h call list" where
  "checkTopicExists_try pubsub s topicName =
     (case ps_topic pubsub topicName of
        Inl e \<Rightarrow> (Inl e, [])
      | Inr t \<Rightarrow>
          (case ps_exists pubsub s t of
             Inl e \<Rightarrow> (Inl e, [TopicExists t (Inl e)])
           | Inr ex \<Rightarrow>
               (Inr \<lparr>exists = ex, topic = (if ex then Some t else None)\<rparr>,
                [TopicExists t (Inr ex)])))"

definition checkTopicExists ::
  "('s, 'h) PubSub \<Rightarrow> 's \<Rightarrow> string \<Rightarrow> 'h ExistsCheck \<times> 'h call list \<times> log_line list" where
  "checkTopicExists pubsub s topicName =
     (case checkTopicExists_try pubsub s topicName of
        (Inr r, cs) \<Rightarrow> (r, cs, [])
      | (Inl errorMessage, cs) \<Rightarrow>
          (\<lparr>exists = False, topic = None\<rparr>, cs,
           [Warning (''Failed to check if topic exists: '' @ errorMessage)]))"

section \<open>createTopic\<close>

record TopicConfig =
  topicName :: string
  skipIfExists :: bool
  labels :: "string option"
  kmsKeyName :: "string option"
  messageRetentionDuration :: "string option"

record TopicResult =
  success :: bool
  res_topicName :: "string option"
  created :: "bool option"
  error :: "string option"

text \<open>
  An optional string in a condition: \<^verbatim>\<open>undefined\<close> and the empty string are falsy.
  \<open>given x\<close> is the string when it is truthy.
\<close>

definition given :: "string option \<Rightarrow> string option" where
  "given x = (case x of None \<Rightarrow> None | Some v \<Rightarrow> (if v = [] then None else Some v))"

text \<open>
  The metadata object of the source, built in the order labels, KMS key, retention; a
  parser that throws ends the construction.
\<close>

definition build_metadata ::
  "(string \<Rightarrow> thrown + jsval) \<Rightarrow> TopicConfig \<Rightarrow> thrown + Metadata" where
  "build_metadata JSON_parse config =
     (case (case given (labels config) of
              None \<Rightarrow> Inr None
            | Some l \<Rightarrow> (case parseLabels JSON_parse l of Inl e \<Rightarrow> Inl e | Inr m \<Rightarrow> Inr (Some m))) of
        Inl e \<Rightarrow> Inl e
      | Inr ls \<Rightarrow>
          (case (case given (messageRetentionDuration config) of
                   None \<Rightarrow> Inr None
                 | Some d \<Rightarrow> (case parseDuration d of Inl e \<Rightarrow> Inl e | Inr v \<Rightarrow> Inr (Some v))) of
             Inl e \<Rightarrow> Inl e
           | Inr du \<Rightarrow>
               Inr \<lparr>md_labels = ls, md_kmsKeyName = given (kmsKeyName config),
                    md_messageRetentionDuration = du\<rparr>))"

text \<open>
  The outcome of the \<^verbatim>\<open>try\<close> block: the returned result or the thrown message, the
  state of the service, the calls made and the lines logged.
\<close>

type_synonym ('s, 'h) attempt = "(thrown + TopicResult) \<times> 's \<times> 'h call list \<times> log_line list"

text \<open>The part of the \<^verbatim>\<open>try\<close> block after the existence branch: creation and metadata.\<close>

definition create_new ::
  "('s, 'h) PubSub \<Rightarrow> (string \<Rightarrow> thrown + jsval) \<Rightarrow> 's \<Rightarrow> TopicConfig \<Rightarrow>
   'h call list \<Rightarrow> log_line list \<Rightarrow> ('s, 'h) attempt" where
  "create_new pubsub JSON_parse s config cs lg =
     (case ps_createTopic pubsub s (topicName config) of
        (Inl e, s1) \<Rightarrow> (Inl e, s1, cs @ [CreateTopic (topicName config) (Inl e)], lg)
      | (Inr t, s1) \<Rightarrow>
          (let cs1 = cs @ [CreateTopic (topicName config) (Inr t)];
               done = \<lparr>success = True, res_topicName = Some (ps_name pubsub t),
                       created = Some True, error = None\<rparr>
           in if given (labels config) \<noteq> None \<or> given (kmsKeyName config) \<noteq> None \<or>
                 given (messageRetentionDuration config) \<noteq> None
              then (case build_metadata JSON_parse config of
                      Inl e \<Rightarrow> (Inl e, s1, cs1, lg)
                    | Inr metadata \<Rightarrow>
                        (case ps_setMetadata pubsub s1 t metadata of
                           (Inl e, s2) \<Rightarrow> (Inl e, s2, cs1 @ [SetMetadata t metadata (Inl e)], lg)
                         | (Inr u, s2) \<Rightarrow>
                             (Inr done, s2, cs1 @ [SetMetadata t metadata (Inr u)], lg)))
              else (Inr done, s1, cs1, lg)))"

definition createTopic_try ::
  "('s, 'h) PubSub \<Rightarrow> (string \<Rightarrow> thrown + jsval) \<Rightarrow> 's \<Rightarrow> TopicConfig \<Rightarrow> ('s, 'h) attempt" where
  "createTopic_try pubsub JSON_parse s config =
     (case validateTopicName (topicName config) of
        Inl e \<Rightarrow> (Inl e, s, [], [])
      | Inr _ \<Rightarrow>
          (case checkTopicExists pubsub s (topicName config) of
             (existsCheck, cs, lg) \<Rightarrow>
               (case (if exists existsCheck then topic existsCheck else None) of
                  Some t \<Rightarrow>
                    (if skipIfExists config
                     then (Inr \<lparr>success = True, res_topicName = Some (ps_name pubsub t),
                                created = Some False, error = None\<rparr>, s, cs, lg)
                     else (Inl (''Topic '' @ quoted (topicName config) @ '' already exists. '' @
                                ''Set skip-if-exists=true to succeed when topic exists.''),
                           s, cs, lg))
                | None \<Rightarrow> create_new pubsub JSON_parse s config cs lg)))"

record ('s, 'h) run =
  result :: TopicResult
  final :: 's
  calls :: "'h call list"
  logs :: "log_line list"

definition createTopic ::
  "('s, 'h) PubSub \<Rightarrow> (string \<Rightarrow> thrown + jsval) \<Rightarrow> 's \<Rightarrow> TopicConfig \<Rightarrow> ('s, 'h) run" where
  "createTopic pubsub JSON_parse s config =
     (case createTopic_try pubsub JSON_parse s config of
        (Inr r, s', cs, lg) \<Rightarrow> \<lparr>result = r, final = s', calls = cs, logs = lg\<rparr>
      | (Inl errorMessage, s', cs, lg) \<Rightarrow>
          \<lparr>result = \<lparr>success = False, res_topicName = None, created = None,
                      error = Some errorMessage\<rparr>,
           final = s', calls = cs,
           logs = lg @ [ErrorLine (''Failed to create topic: '' @ errorMessage)]\<rparr>)"

section \<open>The inputs of run\<close>

text \<open>
  \<^verbatim>\<open>core.getInput(name, options)\<close> of the actions toolkit reads the value that the
  workflow gave to the input, the empty string when the input is not set; \<open>env name\<close> is
  that value. With \<^verbatim>\<open>required: true\<close> the call throws when the value, as given, is
  empty; otherwise it returns the value with the white space at both ends removed.
  \<^verbatim>\<open>trim\<close> on the code units 0 to 255 removes tab, line feed, vertical tab, form feed,
  carriage return, space and the no-break space.
\<close>

definition is_space :: "char \<Rightarrow> bool" where
  "is_space c = (code c \<in> {9, 10, 11, 12, 13, 32, 160})"

definition trim :: "string \<Rightarrow> string" where
  "trim s = rev (dropWhile is_space (rev (dropWhile is_space s)))"

definition getInput :: "(string \<Rightarrow> string) \<Rightarrow> string \<Rightarrow> bool \<Rightarrow> thrown + string" where
  "getInput env name required =
     (let val = env name
      in if required \<and> val = [] then Inl (''Input required and not supplied: '' @ name)
         else Inr (trim val))"

text \<open>
  \<^verbatim>\<open>toLowerCase\<close> on the code units 0 to 255: the letters A to Z and the capital letters
  of Latin-1 (192 to 222 without the multiplication sign 215) move up by 32.
\<close>

definition lower_char :: "char \<Rightarrow> char" where
  "lower_char c =
     (let n = code c
      in if (65 \<le> n \<and> n \<le> 90) \<or> (192 \<le> n \<and> n \<le> 222 \<and> n \<noteq> 215) then char_of (n + 32) else c)"

definition toLowerCase :: "string \<Rightarrow> string" where
  "toLowerCase s = map lower_char s"

text \<open>\<^verbatim>\<open>value || 'false'\<close> and \<^verbatim>\<open>value || undefined\<close>: the empty string is falsy.\<close>

definition or_else :: "string \<Rightarrow> string \<Rightarrow> string" where
  "or_else v d = (if v = [] then d else v)"

definition or_undefined :: "string \<Rightarrow> string option" where
  "or_undefined v = (if v = [] then None else Some v)"

text \<open>
  \<open>run_config\<close> is the part of \<^verbatim>\<open>run\<close> from the first \<^verbatim>\<open>getInput\<close> to the construction
  of \<^verbatim>\<open>config\<close>, with the six inputs read in the order of the source; it returns the
  project and the configuration, or the message thrown.
\<close>

definition run_config :: "(string \<Rightarrow> string) \<Rightarrow> thrown + string \<times> TopicConfig" where
  "run_config env =
     (case getInput env ''project-id'' True of
        Inl e \<Rightarrow> Inl e
      | Inr projectId \<Rightarrow>
     (case getInput env ''topic-name'' True of
        Inl e \<Rightarrow> Inl e
      | Inr name \<Rightarrow>
     (case getInput env ''skip-if-exists'' False of
        Inl e \<Rightarrow> Inl e
      | Inr skipInput \<Rightarrow>
     (case getInput env ''labels'' False of
        Inl e \<Rightarrow> Inl e
      | Inr labelsInput \<Rightarrow>
     (case getInput env ''kms-key-name'' False of
        Inl e \<Rightarrow> Inl e
      | Inr kmsInput \<Rightarrow>
     (case getInput env ''message-retention-duration'' False of
        Inl e \<Rightarrow> Inl e
      | Inr retentionInput \<Rightarrow>
          (let skipIfExistsStr = or_else skipInput ''false'';
               skip = (toLowerCase skipIfExistsStr = ''true'')
           in Inr (projectId,
                   \<lparr>topicName = name, skipIfExists = skip,
                    labels = or_undefined labelsInput,
                    kmsKeyName = or_undefined kmsInput,
                    messageRetentionDuration = or_undefined retentionInput\<rparr>))))))))"

text \<open>The spelling rule in words: the letters t, r, u, e in this order, each in either case.\<close>

definition spec_true_spelling :: "string \<Rightarrow> bool" where
  "spec_true_spelling v =
     (length v = 4 \<and> v ! 0 \<in> set ''tT'' \<and> v ! 1 \<in> set ''rR'' \<and> v ! 2 \<in> set ''uU'' \<and>
      v ! 3 \<in> set ''eE'')"

section \<open>A service for the examples\<close>

text \<open>
  An in-memory service: the state maps the fully-qualified name of each existing topic to
  the metadata applied to it (\<open>None\<close>: none yet). A handle is the fully-qualified name.
  \<open>broken\<close> is the message with which every metadata update fails, if any.
\<close>

type_synonym fake_state = "string \<rightharpoonup> Metadata option"

definition full_name :: "string \<Rightarrow> string \<Rightarrow> string" where
  "full_name project n =
     (if CHR ''/'' \<in> set n then n else ''projects/'' @ project @ ''/topics/'' @ n)"

definition fake_pubsub :: "string \<Rightarrow> thrown option \<Rightarrow> (fake_state, string) PubSub" where
  "fake_pubsub project broken =
     \<lparr>ps_topic = (\<lambda>n. if n = [] then Inl ''A name must be specified for a topic.''
                      else Inr (full_name project n)),
      ps_exists = (\<lambda>s t. Inr (s t \<noteq> None)),
      ps_createTopic = (\<lambda>s n.
        (let t = full_name project n
         in if s t \<noteq> None then (Inl ''6 ALREADY_EXISTS: Topic already exists'', s)
            else (Inr t, s(t \<mapsto> None)))),
      ps_setMetadata = (\<lambda>s t metadata.
        (case broken of
           Some e \<Rightarrow> (Inl e, s)
         | None \<Rightarrow> (Inr (), s(t \<mapsto> Some metadata)))),
      ps_name = (\<lambda>t. t)\<rparr>"

text \<open>A service whose existence query fails, as for a missing permission.\<close>

definition denied_pubsub :: "string \<Rightarrow> (fake_state, string) PubSub" where
  "denied_pubsub project =
     (fake_pubsub project None)\<lparr>ps_exists := (\<lambda>s t. Inl ''7 PERMISSION_DENIED'')\<rparr>"

section \<open>Messages and expected mappings\<close>

text \<open>The message with which \<open>validateTopicName\<close> rejects a name.\<close>

definition invalid_topic_name :: "string \<Rightarrow> string" where
  "invalid_topic_name s =
     ''Invalid topic name: '' @ quoted s @ ''. '' @
     ''Topic names must start with a letter and be 3-255 characters long, '' @
     ''containing only letters, numbers, and ._~+%-''"

text \<open>The message with which \<open>parseDuration\<close> rejects a text.\<close>

definition invalid_duration :: "string \<Rightarrow> string" where
  "invalid_duration s =
     ''Invalid duration format: '' @ quoted s @ ''. '' @
     ''Use format like '' @ quoted ''7d'' @ '' (days), '' @ quoted ''600s'' @
     '' (seconds), '' @ quoted ''1h'' @ '' (hours), or '' @ quoted ''30m'' @ '' (minutes)''"

text \<open>
  The entries that the loop of \<open>parseLabels\<close> rejects, the message of the rejection, and
  the mapping that corresponds to a list of entries with string values (a later entry
  for a key replaces an earlier one).
\<close>

definition non_string :: "string \<times> jsval \<Rightarrow> bool" where
  "non_string e = (typeof (snd e) \<noteq> ''string'')"

definition label_not_string :: "string \<Rightarrow> jsval \<Rightarrow> string" where
  "label_not_string key val =
     ''Label '' @ quoted key @ '' must be a string, got '' @ typeof val @ ''. '' @
     ''All labels must be strings.''"

definition string_entries :: "(string \<times> jsval) list \<Rightarrow> (string \<times> string) list" where
  "string_entries es = map (\<lambda>(k, v). (k, case v of JString x \<Rightarrow> x | _ \<Rightarrow> [])) es"

definition spec_labels :: "(string \<times> jsval) list \<Rightarrow> label_map" where
  "spec_labels es = map_of (rev (string_entries es))"

text \<open>The message thrown for an existing topic when skip is disabled.\<close>

definition already_exists :: "string \<Rightarrow> string" where
  "already_exists n =
     ''Topic '' @ quoted n @ '' already exists. '' @
     ''Set skip-if-exists=true to succeed when topic exists.''"

section \<open>Inputs, states and configurations for the examples\<close>

text \<open>
  The inputs as a workflow step gives them: the two required inputs and \<^verbatim>\<open>skip-if-exists\<close>.
\<close>

definition sample_inputs :: "string \<Rightarrow> string \<Rightarrow> string" where
  "sample_inputs skip name =
     (if name = ''project-id'' then ''my-gcp-project''
      else if name = ''topic-name'' then ''events-topic''
      else if name = ''skip-if-exists'' then skip
      else [])"

text \<open>
  Configurations and states for the examples: the topic \<^verbatim>\<open>events\<close> of project \<^verbatim>\<open>p\<close>,
  present without metadata or absent; a configuration whose labels and retention are
  both malformed; one with a KMS key and a retention of seven days.
\<close>

definition events_present :: fake_state where
  "events_present = Map.empty(''projects/p/topics/events'' \<mapsto> None)"

definition events_absent :: fake_state where
  "events_absent = Map.empty"

definition malformed_config :: "bool \<Rightarrow> TopicConfig" where
  "malformed_config skip =
     \<lparr>topicName = ''events'', skipIfExists = skip, labels = Some ''null'',
      kmsKeyName = Some ''k'', messageRetentionDuration = Some ''5x''\<rparr>"

definition retention_config :: TopicConfig where
  "retention_config =
     \<lparr>topicName = ''events'', skipIfExists = False, labels = None,
      kmsKeyName = Some ''k'', messageRetentionDuration = Some ''7d''\<rparr>"


definition plain_config :: "bool \<Rightarrow> TopicConfig" where
  "plain_config skip =
     \<lparr>topicName = ''events'', skipIfExists = skip, labels = None, kmsKeyName = None,
      messageRetentionDuration = None\<rparr>"

section \<open>Facts about the matcher\<close>

lemma first_down_top: "f (lo + k) = Some r \<Longrightarrow> first_down f lo k = Some r"
  by (cases k) simp_all

lemma first_down_Some:
  "first_down f lo k = Some r \<Longrightarrow> \<exists>n. lo \<le> n \<and> n \<le> lo + k \<and> f n = Some r"
proof (induction k)
  case 0
  then show ?case by auto
next
  case (Suc k)
  show ?case
  proof (cases "f (lo + Suc k)")
    case None
    with Suc.prems have "first_down f lo k = Some r" by simp
    from Suc.IH [OF this] obtain n where "lo \<le> n" "n \<le> lo + k" "f n = Some r" by blast
    then show ?thesis by (intro exI [of _ n]) simp
  next
    case (Some a)
    with Suc.prems have "a = r" by simp
    with Some show ?thesis by (intro exI [of _ "lo + Suc k"]) simp
  qed
qed

lemma takeWhile_all_length: "length (takeWhile P s) = length s \<longleftrightarrow> list_all P s"
proof (induction s)
  case Nil
  show ?case by simp
next
  case (Cons x xs)
  then show ?case by (cases "P x") simp_all
qed

text \<open>The last item of a pattern matches exactly the rest of the input.\<close>

lemma rx_exec_last:
  "rx_exec [Rep P lo hi] s = Some gs \<longleftrightarrow>
     gs = [s] \<and> list_all P s \<and> lo \<le> length s \<and> (case hi of None \<Rightarrow> True | Some h \<Rightarrow> length s \<le> h)"
  (is "?L \<longleftrightarrow> ?R")
proof -
  define avail where "avail = length (takeWhile P s)"
  define top where "top = (case hi of None \<Rightarrow> avail | Some h \<Rightarrow> min h avail)"
  define f where "f = (\<lambda>n. map_option ((#) (take n s)) (rx_exec [] (drop n s)))"
  have ex: "rx_exec [Rep P lo hi] s = (if top < lo then None else first_down f lo (top - lo))"
    unfolding top_def avail_def f_def by (simp add: rx_exec.simps(2) Let_def)
  have avail_le: "avail \<le> length s"
    by (simp add: avail_def length_takeWhile_le)
  have top_le: "top \<le> avail"
    by (cases hi) (simp_all add: top_def)
  have l_to_r: ?R if l: ?L
  proof -
    from l ex have nlt: "\<not> top < lo" and fd: "first_down f lo (top - lo) = Some gs"
      by (auto split: if_splits)
    from first_down_Some [OF fd] obtain n where n: "lo \<le> n" "n \<le> lo + (top - lo)" "f n = Some gs"
      by blast
    from n(3) have dn: "drop n s = []" and gs: "gs = [take n s]"
      by (auto simp: f_def split: if_splits)
    from dn have "length s \<le> n" by simp
    with n(2) nlt top_le avail_le have eq: "n = length s" "top = length s" "avail = length s"
      by auto
    from eq(3) have "list_all P s"
      by (simp add: avail_def takeWhile_all_length)
    moreover from gs eq(1) have "gs = [s]" by simp
    moreover from n(1) eq(1) have "lo \<le> length s" by simp
    moreover from eq(2,3) have "case hi of None \<Rightarrow> True | Some h \<Rightarrow> length s \<le> h"
      by (cases hi) (simp_all add: top_def)
    ultimately show ?R by simp
  qed
  have r_to_l: ?L if r: ?R
  proof -
    from r have "avail = length s"
      by (simp add: avail_def takeWhile_all_length)
    with r have top: "top = length s"
      by (cases hi) (simp_all add: top_def)
    with r have nlt: "\<not> top < lo" by simp
    have "f (lo + (top - lo)) = Some gs"
      using r nlt top by (simp add: f_def)
    then have "first_down f lo (top - lo) = Some gs"
      by (rule first_down_top)
    with nlt ex show ?L by simp
  qed
  from l_to_r r_to_l show ?thesis by blast
qed

section \<open>Character classes\<close>

lemma char_eq_code: "c = d \<longleftrightarrow> code c = code d"
  by (simp add: code_def)

lemma in_range_upt: "lo \<le> (n::nat) \<and> n \<le> hi \<longleftrightarrow> n \<in> set [lo..<Suc hi]"
  by auto

lemma topic_head_letters: "topic_head c \<longleftrightarrow> c \<in> set letters"
  unfolding topic_head_def is_lower_def is_upper_def letters_def in_range_upt
  by (simp add: char_eq_code code_def upt_rec numeral_eq_Suc)

lemma is_digit_digits: "is_digit c \<longleftrightarrow> c \<in> set digits"
  unfolding is_digit_def digits_def in_range_upt
  by (simp add: char_eq_code code_def upt_rec numeral_eq_Suc)

lemma topic_tail_chars:
  "topic_tail c \<longleftrightarrow> c \<in> set letters \<or> c \<in> set digits \<or> c \<in> set ''._~+%-''"
  using topic_head_letters [of c] is_digit_digits [of c]
  by (simp only: topic_tail_def topic_head_def) blast

section \<open>The topic name pattern\<close>

lemma rx_exec_topicPattern_Cons:
  "rx_exec topicPattern (c # cs) =
     (if topic_head c then map_option ((#) [c]) (rx_exec [Rep topic_tail 2 (Some 254)] cs) else None)"
  unfolding topicPattern_def
  by (subst rx_exec.simps(2)) (simp add: Let_def)

lemma rx_test_topicPattern: "rx_test topicPattern s \<longleftrightarrow> spec_topic_name s"
proof (cases s)
  case Nil
  then show ?thesis
    by (simp add: rx_test_def topicPattern_def spec_topic_name_def rx_exec.simps(2))
next
  case (Cons c cs)
  have "rx_test topicPattern (c # cs) \<longleftrightarrow>
          topic_head c \<and> (\<exists>gs. rx_exec [Rep topic_tail 2 (Some 254)] cs = Some gs)"
    by (auto simp: rx_test_def rx_exec_topicPattern_Cons)
  also have "\<dots> \<longleftrightarrow> topic_head c \<and> list_all topic_tail cs \<and> 2 \<le> length cs \<and> length cs \<le> 254"
    by (simp add: rx_exec_last)
  also have "\<dots> \<longleftrightarrow> spec_topic_name (c # cs)"
    unfolding spec_topic_name_def
    using topic_head_letters [of c]
    by (auto simp: list_all_iff topic_tail_chars)
  finally show ?thesis using Cons by simp
qed

text \<open>
  C3. \<open>validateTopicName\<close> accepts exactly the names that start with a letter, are 3 to
  255 characters long and contain only letters, digits and the characters
  \<^verbatim>\<open>. _ ~ + % -\<close>; it rejects every other string (the empty one, one that starts with a
  digit, one that contains a slash or any other character, one of at most 2 or of more
  than 255 characters) by throwing the error with the message \<open>invalid_topic_name\<close>.
\<close>

theorem validateTopicName_accepts_exactly:
  "(spec_topic_name s \<longrightarrow> validateTopicName s = Inr ()) \<and>
   (\<not> spec_topic_name s \<longrightarrow> validateTopicName s = Inl (invalid_topic_name s))"
  by (simp add: validateTopicName_def rx_test_topicPattern invalid_topic_name_def)

theorem validateTopicName_accepts_exactly_witness:
  "validateTopicName ''events-topic'' = Inr () \<and>
   validateTopicName (replicate 255 (CHR ''a'')) = Inr () \<and>
   validateTopicName [] = Inl (invalid_topic_name []) \<and>
   validateTopicName ''1abc'' = Inl (invalid_topic_name ''1abc'') \<and>
   validateTopicName ''a/b'' = Inl (invalid_topic_name ''a/b'') \<and>
   validateTopicName ''ab'' = Inl (invalid_topic_name ''ab'') \<and>
   validateTopicName (replicate 256 (CHR ''a'')) = Inl (invalid_topic_name (replicate 256 (CHR ''a'')))"
  using validateTopicName_accepts_exactly [of "''events-topic''"]
    validateTopicName_accepts_exactly [of "replicate 255 (CHR ''a'')"]
    validateTopicName_accepts_exactly [of "[]"]
    validateTopicName_accepts_exactly [of "''1abc''"]
    validateTopicName_accepts_exactly [of "''a/b''"]
    validateTopicName_accepts_exactly [of "''ab''"]
    validateTopicName_accepts_exactly [of "replicate 256 (CHR ''a'')"]
  by (simp add: spec_topic_name_def letters_def digits_def list_all_iff)

section \<open>The duration pattern and parseDuration\<close>

lemma take_below_takeWhile:
  "n \<le> length (takeWhile P s) \<Longrightarrow> list_all P (take n s)"
proof -
  assume n: "n \<le> length (takeWhile P s)"
  have "take n s = take n (takeWhile P s @ dropWhile P s)" by simp
  also have "\<dots> = take n (takeWhile P s)" using n by (simp del: takeWhile_dropWhile_id)
  finally have "set (take n s) \<subseteq> set (takeWhile P s)"
    by (simp add: set_take_subset)
  then show ?thesis
    by (auto simp: list_all_iff dest: set_takeWhileD)
qed

lemma unit_char_not_digit: "unit_char c \<Longrightarrow> \<not> is_digit c"
  by (auto simp: unit_char_def is_digit_def code_def)

lemma rx_exec_durationPattern:
  "rx_exec durationPattern s = Some gs \<longleftrightarrow> spec_duration s \<and> gs = [butlast s, [last s]]"
  (is "?L \<longleftrightarrow> ?R")
proof -
  define avail where "avail = length (takeWhile is_digit s)"
  define f where
    "f = (\<lambda>n. map_option ((#) (take n s)) (rx_exec [Rep unit_char 1 (Some 1)] (drop n s)))"
  have ex: "rx_exec durationPattern s = (if avail < 1 then None else first_down f 1 (avail - 1))"
    unfolding durationPattern_def avail_def f_def
    by (subst rx_exec.simps(2)) (simp add: Let_def)
  have f_Some: "f n = Some gs \<longleftrightarrow>
      gs = [take n s, drop n s] \<and> list_all unit_char (drop n s) \<and> length (drop n s) = 1"
    for n gs
    by (auto simp: f_def rx_exec_last)
  have l_to_r: ?R if l: ?L
  proof -
    from l ex have av: "1 \<le> avail" and fd: "first_down f 1 (avail - 1) = Some gs"
      by (auto split: if_splits)
    from first_down_Some [OF fd] av obtain n where n: "1 \<le> n" "n \<le> avail" "f n = Some gs"
      by auto
    from n(3) have gs: "gs = [take n s, drop n s]" and u: "list_all unit_char (drop n s)"
      and len: "length (drop n s) = 1"
      by (simp_all add: f_Some)
    from len obtain u where dr: "drop n s = [u]"
      by (cases "drop n s") auto
    have s: "s = take n s @ [u]"
      using dr by (metis append_take_drop_id)
    have bl: "butlast s = take n s" and la: "last s = u"
      by (subst s, simp)+
    have nlen: "length (take n s) = n"
      using len by simp
    have dig: "list_all is_digit (take n s)"
      using n(2) by (simp add: avail_def take_below_takeWhile)
    have "spec_duration s"
      unfolding spec_duration_def bl la
      using s n(1) nlen dig u dr
      by (auto simp: list_all_iff is_digit_digits unit_char_def)
    with gs bl la dr show ?R by simp
  qed
  have r_to_l: ?L if r: ?R
  proof -
    from r have ne: "s \<noteq> []" and bne: "butlast s \<noteq> []"
      and dig: "list_all is_digit (butlast s)" and u: "unit_char (last s)"
      and gs: "gs = [butlast s, [last s]]"
      by (simp_all add: spec_duration_def list_all_iff is_digit_digits unit_char_def)
    from ne have s: "s = butlast s @ [last s]" by simp
    have "takeWhile is_digit (butlast s @ [last s]) = butlast s"
      using dig u by (simp add: takeWhile_append2 list_all_iff unit_char_not_digit)
    with s have tw: "takeWhile is_digit s = butlast s" by simp
    then have av: "avail = length (butlast s)" by (simp add: avail_def)
    with bne have av1: "1 \<le> avail" by (cases "butlast s") simp_all
    have tk: "take avail s = butlast s" and dr: "drop avail s = [last s]"
      by (subst s, simp add: av)+
    have "f (1 + (avail - 1)) = Some gs"
      using av1 tk dr u gs by (simp add: f_Some)
    then have "first_down f 1 (avail - 1) = Some gs"
      by (rule first_down_top)
    with ex av1 show ?L by simp
  qed
  from l_to_r r_to_l show ?thesis by blast
qed

lemma foldl_decimal:
  "foldl (\<lambda>n c. 10 * n + digit_val c) 0 ds = decimal_rev (rev ds)"
  by (induction ds rule: rev_induct) simp_all

lemma parseInt10_digits:
  "ds \<noteq> [] \<Longrightarrow> list_all is_digit ds \<Longrightarrow> parseInt10 ds = number (decimal_rev (rev ds))"
  by (simp add: parseInt10_def foldl_decimal list_all_iff takeWhile_eq_all_conv [THEN iffD2])

lemma number_exact: "n < 2 ^ 53 \<Longrightarrow> number n = Num n"
proof -
  assume n: "n < 2 ^ 53"
  have "(2::nat) ^ 53 < 2 ^ 1024" by simp
  with n have "n < 2 ^ 1024" by (rule less_trans)
  with n show ?thesis by (simp add: number_def to_double_def)
qed

lemma parseDuration_no_match:
  "\<not> spec_duration s \<Longrightarrow> parseDuration s = Inl (invalid_duration s)"
proof -
  assume "\<not> spec_duration s"
  then have "rx_exec durationPattern s = None"
    using rx_exec_durationPattern [of s] by (cases "rx_exec durationPattern s") auto
  then show ?thesis
    by (simp add: parseDuration_def match_def invalid_duration_def)
qed

lemma parseDuration_match:
  assumes "spec_duration s"
  shows "parseDuration s =
     Inr \<lparr>seconds = Some
            (if last s = CHR ''d'' then jsmul (number (spec_value s)) (Num 86400)
             else if last s = CHR ''h'' then jsmul (number (spec_value s)) (Num 3600)
             else if last s = CHR ''m'' then jsmul (number (spec_value s)) (Num 60)
             else number (spec_value s)),
          nanos = None\<rparr>"
proof -
  from assms have m: "match s durationPattern = Some [s, butlast s, [last s]]"
    by (simp add: match_def rx_exec_durationPattern)
  from assms have "butlast s \<noteq> []" "list_all is_digit (butlast s)"
    by (simp_all add: spec_duration_def list_all_iff is_digit_digits)
  then have v: "parseInt10 (butlast s) = number (spec_value s)"
    by (simp add: parseInt10_digits spec_value_def)
  from assms have u: "last s \<in> set ''dhms''"
    by (simp add: spec_duration_def)
  show ?thesis
    using u by (auto simp: parseDuration_def m v Let_def)
qed

lemma jsmul_exact:
  "a * b < 2 ^ 53 \<Longrightarrow> 0 < b \<Longrightarrow> jsmul (number a) (Num b) = Num (a * b)"
proof -
  assume ab: "a * b < 2 ^ 53" and b: "0 < b"
  from b have "a \<le> a * b" by simp
  with ab have "a < 2 ^ 53" by (rule le_less_trans [rotated])
  with ab show ?thesis by (simp add: number_exact)
qed

text \<open>
  C6, as amended. \<open>parseDuration\<close> rejects exactly the texts that are not one or more
  decimal digits followed by one of d, h, m, s, with the message \<open>invalid_duration\<close>.
  For every other text it returns an object with \<open>seconds\<close> set and \<open>nanos\<close> never set,
  and \<open>seconds\<close> is the value times the factor of the unit (d 86400, h 3600, m 60, s 1)
  whenever this product is below \<open>2 ^ 53\<close>, where the arithmetic of doubles is exact.
\<close>

theorem parseDuration_units:
  "(\<not> spec_duration s \<longrightarrow> parseDuration s = Inl (invalid_duration s)) \<and>
   (spec_duration s \<longrightarrow>
      (\<exists>n. parseDuration s = Inr \<lparr>seconds = Some n, nanos = None\<rparr>) \<and>
      (spec_value s * spec_factor s < 2 ^ 53 \<longrightarrow>
         parseDuration s =
           Inr \<lparr>seconds = Some (Num (spec_value s * spec_factor s)), nanos = None\<rparr>))"
proof (intro conjI impI)
  assume "\<not> spec_duration s"
  then show "parseDuration s = Inl (invalid_duration s)"
    by (rule parseDuration_no_match)
next
  assume "spec_duration s"
  then show "\<exists>n. parseDuration s = Inr \<lparr>seconds = Some n, nanos = None\<rparr>"
    by (simp add: parseDuration_match)
next
  assume sd: "spec_duration s" and small: "spec_value s * spec_factor s < 2 ^ 53"
  show "parseDuration s =
          Inr \<lparr>seconds = Some (Num (spec_value s * spec_factor s)), nanos = None\<rparr>"
    using small jsmul_exact [of "spec_value s" 86400] jsmul_exact [of "spec_value s" 3600]
      jsmul_exact [of "spec_value s" 60]
    by (simp add: parseDuration_match [OF sd] spec_factor_def number_exact split: if_splits)
qed

lemmas duration_eval = spec_duration_def spec_value_def spec_factor_def digits_def digit_val_def
  code_def invalid_duration_def

theorem parseDuration_units_witness:
  "parseDuration ''7d'' = Inr \<lparr>seconds = Some (Num 604800), nanos = None\<rparr> \<and>
   parseDuration ''600s'' = Inr \<lparr>seconds = Some (Num 600), nanos = None\<rparr> \<and>
   parseDuration ''1h'' = Inr \<lparr>seconds = Some (Num 3600), nanos = None\<rparr> \<and>
   parseDuration ''30m'' = Inr \<lparr>seconds = Some (Num 1800), nanos = None\<rparr> \<and>
   parseDuration ''5x'' = Inl (invalid_duration ''5x'') \<and>
   parseDuration ''d5'' = Inl (invalid_duration ''d5'')"
  using parseDuration_units [of "''7d''"] parseDuration_units [of "''600s''"]
    parseDuration_units [of "''1h''"] parseDuration_units [of "''30m''"]
    parseDuration_units [of "''5x''"] parseDuration_units [of "''d5''"]
  by (simp add: duration_eval)

text \<open>
  The claim as stated, without the bound, fails: \<open>2 ^ 53 + 1\<close> seconds is not a double, and
  \<^verbatim>\<open>parseInt\<close> returns the nearest one.
\<close>

theorem parseDuration_units_counterexample:
  "spec_duration ''9007199254740993s'' \<and>
   parseDuration ''9007199254740993s'' \<noteq>
     Inr \<lparr>seconds = Some (Num (spec_value ''9007199254740993s'' * spec_factor ''9007199254740993s'')),
          nanos = None\<rparr> \<and>
   parseDuration ''9007199254740993s'' =
     Inr \<lparr>seconds = Some (Num 9007199254740992), nanos = None\<rparr>"
  by (simp add: duration_eval parseDuration_def match_def durationPattern_def rx_exec.simps(2)
      is_digit_def unit_char_def parseInt10_def number_def to_double_def bitlen.simps Let_def)

section \<open>parseLabels\<close>

lemma labels_loop_fail:
  "find non_string es = Some (k, x) \<Longrightarrow> labels_loop es acc = Inl (label_not_string k x)"
proof (induction es arbitrary: acc)
  case Nil
  then show ?case by simp
next
  case (Cons e es)
  obtain k' v where e: "e = (k', v)" by (cases e)
  show ?case
  proof (cases "non_string e")
    case True
    with Cons.prems have eq: "e = (k, x)" by simp
    from True eq have "typeof x \<noteq> ''string''" by (simp add: non_string_def)
    then have "labels_loop ((k, x) # es) acc = Inl (label_not_string k x)"
      by (cases x) (simp_all add: label_not_string_def)
    with eq show ?thesis by simp
  next
    case False
    with e obtain str where "v = JString str"
      by (cases v) (simp_all add: non_string_def)
    with Cons e False show ?thesis by simp
  qed
qed

lemma labels_loop_ok:
  "find non_string es = None \<Longrightarrow> \<exists>m. labels_loop es acc = Inr m"
proof (induction es arbitrary: acc)
  case Nil
  then show ?case by simp
next
  case (Cons e es)
  obtain k v where e: "e = (k, v)" by (cases e)
  from Cons.prems have ns: "\<not> non_string e" and rest: "find non_string es = None"
    by (simp_all split: if_splits)
  from ns e obtain str where "v = JString str"
    by (cases v) (simp_all add: non_string_def)
  with e Cons.IH [OF rest] show ?case by simp
qed

lemma labels_loop_spec:
  "find non_string es = None \<Longrightarrow> ''__proto__'' \<notin> fst ` set es \<Longrightarrow>
   labels_loop es acc = Inr (acc ++ spec_labels es)"
proof (induction es arbitrary: acc)
  case Nil
  then show ?case by (simp add: spec_labels_def string_entries_def)
next
  case (Cons e es)
  obtain k v where e: "e = (k, v)" by (cases e)
  from Cons.prems have ns: "\<not> non_string e" and rest: "find non_string es = None"
    by (simp_all split: if_splits)
  from ns e obtain str where v: "v = JString str"
    by (cases v) (simp_all add: non_string_def)
  from Cons.prems e have k: "k \<noteq> ''__proto__''" and np: "''__proto__'' \<notin> fst ` set es"
    by auto
  have "labels_loop (e # es) acc = labels_loop es (acc(k \<mapsto> str))"
    using e v k by (simp add: assign_def)
  also have "\<dots> = Inr (acc(k \<mapsto> str) ++ spec_labels es)"
    by (rule Cons.IH [OF rest np])
  also have "acc(k \<mapsto> str) ++ spec_labels es = acc ++ spec_labels (e # es)"
    by (simp add: spec_labels_def string_entries_def e v map_add_def fun_eq_iff
        split: option.splits)
  finally show ?case .
qed

lemma Object_entries_Inl:
  "Object_entries v = Inl e \<longleftrightarrow>
     v = JNull \<and> e = ''Cannot convert undefined or null to object''"
  by (cases v) auto

text \<open>
  C7, as amended. \<open>parseLabels\<close> throws exactly when (a) the text is not valid JSON, or it
  parses to \<^verbatim>\<open>null\<close>, or (b) some entry of the parsed value has a value that is not a
  string; in case (b) the message names the first such key and the \<^verbatim>\<open>typeof\<close> of its
  value. For an object whose values are all strings and that has no key
  \<^verbatim>\<open>__proto__\<close> it returns the corresponding mapping.
\<close>

theorem parseLabels_failures:
  "((\<exists>e. parseLabels JSON_parse s = Inl e) \<longleftrightarrow>
      (\<exists>e. JSON_parse s = Inl e) \<or> JSON_parse s = Inr JNull \<or>
      (\<exists>v es. JSON_parse s = Inr v \<and> Object_entries v = Inr es \<and> find non_string es \<noteq> None)) \<and>
   (\<forall>v es k x. JSON_parse s = Inr v \<longrightarrow> Object_entries v = Inr es \<longrightarrow>
      find non_string es = Some (k, x) \<longrightarrow>
      parseLabels JSON_parse s = Inl (''Failed to parse labels: '' @ label_not_string k x)) \<and>
   (\<forall>kvs. JSON_parse s = Inr (JObject kvs) \<longrightarrow> find non_string kvs = None \<longrightarrow>
      ''__proto__'' \<notin> fst ` set kvs \<longrightarrow> parseLabels JSON_parse s = Inr (spec_labels kvs))"
proof (intro conjI allI impI)
  show "(\<exists>e. parseLabels JSON_parse s = Inl e) \<longleftrightarrow>
      (\<exists>e. JSON_parse s = Inl e) \<or> JSON_parse s = Inr JNull \<or>
      (\<exists>v es. JSON_parse s = Inr v \<and> Object_entries v = Inr es \<and> find non_string es \<noteq> None)"
  proof (cases "JSON_parse s")
    case (Inl e)
    then show ?thesis by (simp add: parseLabels_def)
  next
    case (Inr v)
    show ?thesis
    proof (cases "Object_entries v")
      case (Inl e)
      with Inr show ?thesis by (simp add: parseLabels_def Object_entries_Inl)
    next
      case es: (Inr es)
      then have nn: "v \<noteq> JNull" by auto
      show ?thesis
      proof (cases "find non_string es")
        case None
        from labels_loop_ok [OF this] obtain m where "labels_loop es Map.empty = Inr m" ..
        with Inr es None nn show ?thesis by (simp add: parseLabels_def)
      next
        case (Some kx)
        obtain k x where "kx = (k, x)" by (cases kx)
        with Some have "labels_loop es Map.empty = Inl (label_not_string k x)"
          by (simp add: labels_loop_fail)
        with Inr es Some show ?thesis by (simp add: parseLabels_def)
      qed
    qed
  qed
next
  fix v es k x
  assume "JSON_parse s = Inr v" "Object_entries v = Inr es" "find non_string es = Some (k, x)"
  then show "parseLabels JSON_parse s = Inl (''Failed to parse labels: '' @ label_not_string k x)"
    by (simp add: parseLabels_def labels_loop_fail)
next
  fix kvs
  assume "JSON_parse s = Inr (JObject kvs)" "find non_string kvs = None"
    "''__proto__'' \<notin> fst ` set kvs"
  then show "parseLabels JSON_parse s = Inr (spec_labels kvs)"
    by (simp add: parseLabels_def labels_loop_spec)
qed

lemmas labels_eval = JSON_parse_samples_def quoted_def dq_def non_string_def label_not_string_def
  spec_labels_def string_entries_def

theorem parseLabels_failures_witness:
  "parseLabels JSON_parse_samples
     (''{'' @ quoted ''a'' @ '':'' @ quoted ''1'' @ '','' @ quoted ''b'' @ '':'' @ quoted ''2'' @ ''}'') =
     Inr (Map.empty(''a'' \<mapsto> ''1'', ''b'' \<mapsto> ''2'')) \<and>
   parseLabels JSON_parse_samples (''{'' @ quoted ''a'' @ '':1}'') =
     Inl (''Failed to parse labels: Label '' @ quoted ''a'' @
          '' must be a string, got number. All labels must be strings.'') \<and>
   (\<exists>e. parseLabels JSON_parse_samples ''not json'' = Inl e)"
  using parseLabels_failures [of JSON_parse_samples
      "''{'' @ quoted ''a'' @ '':'' @ quoted ''1'' @ '','' @ quoted ''b'' @ '':'' @ quoted ''2'' @ ''}''"]
    parseLabels_failures [of JSON_parse_samples "''{'' @ quoted ''a'' @ '':1}''"]
    parseLabels_failures [of JSON_parse_samples "''not json''"]
  by (simp add: labels_eval)

text \<open>
  The claim as stated fails at the text \<^verbatim>\<open>null\<close>: it is valid JSON and it has no value
  that is not a string, and \<open>parseLabels\<close> throws.
\<close>

theorem parseLabels_failures_counterexample:
  "JSON_parse_samples ''null'' = Inr JNull \<and>
   parseLabels JSON_parse_samples ''null'' =
     Inl ''Failed to parse labels: Cannot convert undefined or null to object''"
  by (simp add: JSON_parse_samples_def parseLabels_def)

text \<open>The key \<^verbatim>\<open>__proto__\<close> of a parsed object does not reach the result.\<close>

lemma parseLabels_proto:
  "parseLabels JSON_parse_samples (''{'' @ quoted ''__proto__'' @ '':'' @ quoted ''x'' @ ''}'') =
     Inr Map.empty"
  by (simp add: JSON_parse_samples_def quoted_def dq_def parseLabels_def assign_def)

section \<open>Index keys\<close>

lemma digit_val_digit_char: "d < 10 \<Longrightarrow> digit_val (digit_char d) = d"
  by (simp add: digit_val_def digit_char_def code_def)

lemma is_digit_digit_char: "d < 10 \<Longrightarrow> is_digit (digit_char d)"
  by (simp add: is_digit_def digit_char_def code_def)

lemma decimal_show_nat: "decimal_rev (rev (show_nat n)) = n"
proof (induction n rule: show_nat.induct)
  case (1 n)
  show ?case
  proof (cases "n < 10")
    case True
    then show ?thesis
      by (subst show_nat.simps) (simp add: digit_val_digit_char)
  next
    case False
    with 1 have "decimal_rev (rev (show_nat (n div 10))) = n div 10" by simp
    with False show ?thesis
      by (subst show_nat.simps) (simp add: digit_val_digit_char)
  qed
qed

lemma show_nat_inj: "show_nat i = show_nat j \<Longrightarrow> i = j"
  by (metis decimal_show_nat)

lemma show_nat_digits: "list_all is_digit (show_nat n)"
proof (induction n rule: show_nat.induct)
  case (1 n)
  show ?case
  proof (cases "n < 10")
    case True
    then show ?thesis
      by (subst show_nat.simps) (simp add: is_digit_digit_char)
  next
    case False
    with 1 have "list_all is_digit (show_nat (n div 10))" by simp
    with False show ?thesis
      by (subst show_nat.simps) (simp add: is_digit_digit_char)
  qed
qed

lemma show_nat_not_proto: "show_nat i \<noteq> ''__proto__''"
proof
  assume "show_nat i = ''__proto__''"
  with show_nat_digits [of i] have "list_all is_digit ''__proto__''" by simp
  then show False by (simp add: is_digit_def code_def)
qed

text \<open>The entries of a string: one per character, under its index.\<close>

lemma map_of_rev_distinct: "distinct (map fst xs) \<Longrightarrow> map_of (rev xs) = map_of xs"
proof (induction xs)
  case Nil
  show ?case by simp
next
  case (Cons p xs)
  obtain k v where p: "p = (k, v)" by (cases p)
  from Cons.prems p have k: "k \<notin> fst ` set xs" and d: "distinct (map fst xs)" by auto
  from k have "map_of xs k = None" by (simp add: map_of_eq_None_iff)
  then show ?case
    using Cons.IH [OF d] p by (auto simp: map_add_def fun_eq_iff split: option.splits)
qed

lemma string_entries_chars:
  "string_entries (map (\<lambda>(i, c). (show_nat i, JString [c])) xs) =
     map (\<lambda>(i, c). (show_nat i, [c])) xs"
  by (induction xs) (auto simp: string_entries_def)

lemma chars_no_non_string:
  "find non_string (map (\<lambda>(i, c). (show_nat i, JString [c])) xs) = None"
  by (induction xs) (auto simp: non_string_def)

lemma chars_no_proto:
  "''__proto__'' \<notin> fst ` set (map (\<lambda>(i, c). (show_nat i, JString [c])) xs)"
  by (induction xs) (auto simp: show_nat_not_proto [symmetric])

lemma index_keys_distinct:
  "distinct (map fst (map (\<lambda>(i, c). (show_nat i, [c])) (enumerate 0 cs)))"
proof -
  have "map fst (map (\<lambda>(i, c). (show_nat i, [c])) (enumerate 0 cs)) =
          map (show_nat \<circ> fst) (enumerate 0 cs)"
    by (simp add: comp_def case_prod_unfold)
  also have "\<dots> = map show_nat (map fst (enumerate 0 cs))"
    by (simp only: map_map)
  also have "\<dots> = map show_nat [0..<length cs]"
    by simp
  finally show ?thesis
    by (auto simp: distinct_map inj_on_def dest: show_nat_inj)
qed

lemma index_map_lookup:
  "i < length cs \<Longrightarrow>
   map_of (rev (map (\<lambda>(i, c). (show_nat i, [c])) (enumerate 0 cs))) (show_nat i) = Some [cs ! i]"
proof -
  assume i: "i < length cs"
  then have "(i, cs ! i) \<in> set (enumerate 0 cs)"
    by (simp add: in_set_enumerate_eq)
  then have "(show_nat i, [cs ! i]) \<in> set (map (\<lambda>(i, c). (show_nat i, [c])) (enumerate 0 cs))"
    by force
  then have "map_of (map (\<lambda>(i, c). (show_nat i, [c])) (enumerate 0 cs)) (show_nat i) = Some [cs ! i]"
    by (rule map_of_is_SomeI [OF index_keys_distinct])
  then show ?thesis
    by (simp add: map_of_rev_distinct [OF index_keys_distinct])
qed

lemma index_map_dom:
  "dom (map_of (rev (map (\<lambda>(i, c). (show_nat i, [c])) (enumerate 0 cs)))) =
     show_nat ` {..<length cs}"
proof -
  have "fst ` set (map (\<lambda>(i, c). (show_nat i, [c])) (enumerate 0 cs)) =
          show_nat ` fst ` set (enumerate 0 cs)"
    by (simp add: image_image case_prod_unfold)
  also have "fst ` set (enumerate 0 cs) = {..<length cs}"
    by (simp add: set_map [symmetric] atLeast_upt del: set_map)
  finally show ?thesis
    by (simp add: dom_map_of_conv_image_fst)
qed

text \<open>
  C10. \<open>parseLabels\<close> does not reject every valid JSON text that is not an object: a
  number or a boolean gives the empty mapping, a string gives the mapping from the index
  of each character to that character, and of these documents only \<^verbatim>\<open>null\<close> is
  rejected, with the message of the \<^verbatim>\<open>TypeError\<close> of \<^verbatim>\<open>Object.entries\<close> wrapped as a
  parse failure.
\<close>

theorem parseLabels_primitives:
  "(\<forall>x. JSON_parse s = Inr (JNumber x) \<longrightarrow> parseLabels JSON_parse s = Inr Map.empty) \<and>
   (\<forall>b. JSON_parse s = Inr (JBool b) \<longrightarrow> parseLabels JSON_parse s = Inr Map.empty) \<and>
   (\<forall>cs. JSON_parse s = Inr (JString cs) \<longrightarrow>
      (\<exists>m. parseLabels JSON_parse s = Inr m \<and> dom m = show_nat ` {..<length cs} \<and>
           (\<forall>i<length cs. m (show_nat i) = Some [cs ! i]))) \<and>
   (JSON_parse s = Inr JNull \<longrightarrow>
      parseLabels JSON_parse s =
        Inl ''Failed to parse labels: Cannot convert undefined or null to object'')"
proof (intro conjI allI impI)
  fix x assume "JSON_parse s = Inr (JNumber x)"
  then show "parseLabels JSON_parse s = Inr Map.empty" by (simp add: parseLabels_def)
next
  fix b assume "JSON_parse s = Inr (JBool b)"
  then show "parseLabels JSON_parse s = Inr Map.empty" by (simp add: parseLabels_def)
next
  assume "JSON_parse s = Inr JNull"
  then show "parseLabels JSON_parse s =
      Inl ''Failed to parse labels: Cannot convert undefined or null to object''"
    by (simp add: parseLabels_def)
next
  fix cs assume p: "JSON_parse s = Inr (JString cs)"
  define es where "es = map (\<lambda>(i, c). (show_nat i, JString [c])) (enumerate 0 cs)"
  define m where "m = map_of (rev (map (\<lambda>(i, c). (show_nat i, [c])) (enumerate 0 cs)))"
  have "labels_loop es Map.empty = Inr (Map.empty ++ spec_labels es)"
    unfolding es_def by (rule labels_loop_spec [OF chars_no_non_string chars_no_proto])
  also have "Map.empty ++ spec_labels es = m"
    by (simp add: spec_labels_def es_def m_def string_entries_chars)
  finally have "parseLabels JSON_parse s = Inr m"
    using p by (simp add: parseLabels_def es_def)
  moreover have "dom m = show_nat ` {..<length cs}"
    unfolding m_def by (rule index_map_dom)
  moreover have "\<forall>i<length cs. m (show_nat i) = Some [cs ! i]"
    unfolding m_def by (simp add: index_map_lookup)
  ultimately show "\<exists>m. parseLabels JSON_parse s = Inr m \<and> dom m = show_nat ` {..<length cs} \<and>
           (\<forall>i<length cs. m (show_nat i) = Some [cs ! i])"
    by blast
qed

theorem parseLabels_primitives_witness:
  "parseLabels JSON_parse_samples ''5'' = Inr Map.empty \<and>
   parseLabels JSON_parse_samples ''true'' = Inr Map.empty \<and>
   (\<exists>m. parseLabels JSON_parse_samples (quoted ''ab'') = Inr m \<and> dom m = {''0'', ''1''} \<and>
        m ''0'' = Some ''a'' \<and> m ''1'' = Some ''b'') \<and>
   parseLabels JSON_parse_samples ''null'' =
     Inl ''Failed to parse labels: Cannot convert undefined or null to object''"
proof -
  have keys: "show_nat 0 = ''0''" "show_nat (Suc 0) = ''1''"
    by (simp_all add: show_nat.simps digit_char_def char_eq_code code_def)
  have n: "parseLabels JSON_parse_samples ''5'' = Inr Map.empty"
    using parseLabels_primitives [of JSON_parse_samples "''5''"]
    by (simp add: JSON_parse_samples_def)
  have b: "parseLabels JSON_parse_samples ''true'' = Inr Map.empty"
    using parseLabels_primitives [of JSON_parse_samples "''true''"]
    by (auto simp: JSON_parse_samples_def)
  have z: "parseLabels JSON_parse_samples ''null'' =
     Inl ''Failed to parse labels: Cannot convert undefined or null to object''"
    using parseLabels_primitives [of JSON_parse_samples "''null''"]
    by (simp add: JSON_parse_samples_def)
  have "JSON_parse_samples (quoted ''ab'') = Inr (JString ''ab'')"
    by (simp add: JSON_parse_samples_def quoted_def dq_def)
  with parseLabels_primitives [of JSON_parse_samples "quoted ''ab''"]
  obtain m where m: "parseLabels JSON_parse_samples (quoted ''ab'') = Inr m"
    "dom m = show_nat ` {..<length ''ab''}" "\<forall>i<length ''ab''. m (show_nat i) = Some [''ab'' ! i]"
    by blast
  have "{..<length ''ab''} = {0, Suc 0}" by auto
  with m(2) have d: "dom m = {''0'', ''1''}" by (simp add: keys)
  from m(3) have "m (show_nat 0) = Some [''ab'' ! 0]" "m (show_nat (Suc 0)) = Some [''ab'' ! Suc 0]"
    by simp_all
  then have "m ''0'' = Some ''a''" "m ''1'' = Some ''b''" by (simp_all add: keys)
  with m(1) d n b z show ?thesis by blast
qed

section \<open>The skip-if-exists input\<close>

lemma code_lower_char:
  "code (lower_char c) =
     (if (65 \<le> code c \<and> code c \<le> 90) \<or> (192 \<le> code c \<and> code c \<le> 222 \<and> code c \<noteq> 215)
      then code c + 32 else code c)"
  by (auto simp: lower_char_def Let_def code_def)

lemma lower_char_true:
  "lower_char c = CHR ''t'' \<longleftrightarrow> c \<in> set ''tT''"
  "lower_char c = CHR ''r'' \<longleftrightarrow> c \<in> set ''rR''"
  "lower_char c = CHR ''u'' \<longleftrightarrow> c \<in> set ''uU''"
  "lower_char c = CHR ''e'' \<longleftrightarrow> c \<in> set ''eE''"
  by (auto simp: char_eq_code code_lower_char) (simp_all add: code_def)

lemma length_four: "length v = 4 \<longleftrightarrow> (\<exists>a b c d. v = [a, b, c, d])"
proof -
  have "(4::nat) = Suc (Suc (Suc (Suc 0)))" by simp
  then show ?thesis by (simp only: length_Suc_conv length_0_conv) blast
qed

lemma toLowerCase_true: "toLowerCase v = ''true'' \<longleftrightarrow> spec_true_spelling v"
proof (cases "length v = 4")
  case True
  then obtain a b c d where v: "v = [a, b, c, d]"
    by (auto simp: length_four)
  show ?thesis
    by (simp add: v toLowerCase_def spec_true_spelling_def lower_char_true)
next
  case False
  have "toLowerCase v \<noteq> ''true''"
  proof
    assume "toLowerCase v = ''true''"
    then have "length (toLowerCase v) = length ''true''" by (rule arg_cong)
    with False show False by (simp add: toLowerCase_def)
  qed
  with False show ?thesis by (simp add: spec_true_spelling_def)
qed

text \<open>
  The required test looks at the value as given, so an input of white space only is
  accepted and read as the empty string.
\<close>

lemma getInput_blank: "env name = ''   '' \<Longrightarrow> getInput env name True = Inr []"
  by (simp add: getInput_def trim_def is_space_def code_def)

text \<open>
  C9, as amended. The parsing of the \<^verbatim>\<open>skip-if-exists\<close> input rejects no spelling:
  whether \<open>run_config\<close> throws does not depend on the value of this input. A
  case-insensitive \<^verbatim>\<open>true\<close> (as \<^verbatim>\<open>getInput\<close> returns it) enables skip; the default (input
  not set) and every other spelling give \<open>skipIfExists = False\<close>.
\<close>

theorem run_config_skipIfExists:
  "(\<forall>v. (\<exists>e. run_config (env(''skip-if-exists'' := v)) = Inl e) \<longleftrightarrow>
        (\<exists>e. run_config env = Inl e)) \<and>
   (\<forall>p config. run_config env = Inr (p, config) \<longrightarrow>
      skipIfExists config = spec_true_spelling (trim (env ''skip-if-exists'')))"
proof -
  have low: "toLowerCase (or_else v ''false'') = ''true'' \<longleftrightarrow> spec_true_spelling v" for v
  proof (cases "v = []")
    case True
    then show ?thesis
      by (simp add: or_else_def spec_true_spelling_def toLowerCase_def lower_char_def code_def)
  next
    case False
    then show ?thesis
      by (simp add: or_else_def toLowerCase_true)
  qed
  have thrown: "(\<exists>e. run_config f = Inl e) \<longleftrightarrow> f ''project-id'' = [] \<or> f ''topic-name'' = []"
    for f
    by (simp add: run_config_def getInput_def Let_def)
  have "(\<exists>e. run_config (env(''skip-if-exists'' := v)) = Inl e) \<longleftrightarrow>
        (\<exists>e. run_config env = Inl e)" for v
    unfolding thrown by simp
  moreover have "\<forall>p config. run_config env = Inr (p, config) \<longrightarrow>
      skipIfExists config = spec_true_spelling (trim (env ''skip-if-exists''))"
    by (auto simp: run_config_def getInput_def Let_def low split: if_splits)
  ultimately show ?thesis by blast
qed

theorem run_config_skipIfExists_witness:
  "(\<exists>p config. run_config (sample_inputs ''TrUe'') = Inr (p, config) \<and> skipIfExists config) \<and>
   (\<exists>p config. run_config (sample_inputs [])  = Inr (p, config) \<and> \<not> skipIfExists config) \<and>
   (\<exists>p config. run_config (sample_inputs ''false'') = Inr (p, config) \<and> \<not> skipIfExists config) \<and>
   (\<exists>p config. run_config (sample_inputs ''1'') = Inr (p, config) \<and> \<not> skipIfExists config)"
proof -
  have ok: "run_config (sample_inputs []) =
      Inr (''my-gcp-project'',
           \<lparr>topicName = ''events-topic'', skipIfExists = False, labels = None, kmsKeyName = None,
            messageRetentionDuration = None\<rparr>)"
    by (simp add: run_config_def getInput_def sample_inputs_def or_else_def or_undefined_def
        toLowerCase_def lower_char_def trim_def is_space_def code_def Let_def)
  have inst: "\<exists>p config. run_config (sample_inputs v) = Inr (p, config) \<and>
      skipIfExists config = spec_true_spelling (trim v)" for v
  proof -
    have upd: "(sample_inputs [])(''skip-if-exists'' := v) = sample_inputs v"
      by (auto simp: sample_inputs_def fun_eq_iff)
    note t = run_config_skipIfExists [of "sample_inputs []"]
    from t ok have "\<not> (\<exists>e. run_config ((sample_inputs [])(''skip-if-exists'' := v)) = Inl e)"
      by simp
    then obtain pc where pc: "run_config (sample_inputs v) = Inr pc"
      unfolding upd by (cases "run_config (sample_inputs v)") auto
    obtain p c where "pc = (p, c)" by (cases pc)
    with pc have r: "run_config (sample_inputs v) = Inr (p, c)" by simp
    with run_config_skipIfExists [of "sample_inputs v"]
    have "skipIfExists c = spec_true_spelling (trim (sample_inputs v ''skip-if-exists''))"
      by blast
    then have "skipIfExists c = spec_true_spelling (trim v)"
      by (simp add: sample_inputs_def)
    with r show ?thesis by blast
  qed
  have "spec_true_spelling (trim ''TrUe'')" "\<not> spec_true_spelling (trim [])"
    "\<not> spec_true_spelling (trim ''false'')" "\<not> spec_true_spelling (trim ''1'')"
    by (simp_all add: spec_true_spelling_def trim_def is_space_def code_def)
  with inst [of "''TrUe''"] inst [of "[]"] inst [of "''false''"] inst [of "''1''"] show ?thesis
    by simp
qed

text \<open>
  The claim as stated fails: the spelling \<^verbatim>\<open>yes\<close> is not rejected as an error, the
  configuration is built with \<open>skipIfExists = False\<close>.
\<close>

theorem run_config_skipIfExists_counterexample:
  "run_config (sample_inputs ''yes'') =
     Inr (''my-gcp-project'',
          \<lparr>topicName = ''events-topic'', skipIfExists = False, labels = None, kmsKeyName = None,
           messageRetentionDuration = None\<rparr>)"
  by (simp add: run_config_def getInput_def sample_inputs_def or_else_def
      or_undefined_def toLowerCase_def lower_char_def trim_def is_space_def code_def Let_def)

section \<open>The paths of createTopic\<close>

lemma checkTopicExists_unfold:
  "checkTopicExists pubsub s n =
     (case ps_topic pubsub n of
        Inl e \<Rightarrow> (\<lparr>exists = False, topic = None\<rparr>, [],
                  [Warning (''Failed to check if topic exists: '' @ e)])
      | Inr t \<Rightarrow>
          (case ps_exists pubsub s t of
             Inl e \<Rightarrow> (\<lparr>exists = False, topic = None\<rparr>, [TopicExists t (Inl e)],
                       [Warning (''Failed to check if topic exists: '' @ e)])
           | Inr ex \<Rightarrow> (\<lparr>exists = ex, topic = (if ex then Some t else None)\<rparr>,
                        [TopicExists t (Inr ex)], [])))"
  by (simp add: checkTopicExists_def checkTopicExists_try_def split: sum.splits)

lemma checkTopicExists_found:
  "ps_topic pubsub n = Inr t \<Longrightarrow> ps_exists pubsub s t = Inr True \<Longrightarrow>
   checkTopicExists pubsub s n = (\<lparr>exists = True, topic = Some t\<rparr>, [TopicExists t (Inr True)], [])"
  by (simp add: checkTopicExists_unfold)

lemma checkTopicExists_calls:
  "checkTopicExists pubsub s n = (ec, cs, lg) \<Longrightarrow> TopicExists t (Inr True) \<in> set cs \<Longrightarrow>
   ps_topic pubsub n = Inr t \<and> ps_exists pubsub s t = Inr True"
  by (auto simp: checkTopicExists_unfold split: sum.splits)


lemma create_new_calls:
  "create_new pubsub JSON_parse s config cs lg = (r, s', cs', lg') \<Longrightarrow>
   TopicExists t x \<in> set cs' \<longleftrightarrow> TopicExists t x \<in> set cs"
  by (auto simp: create_new_def Let_def split: sum.splits prod.splits if_splits)

lemma createTopic_existing:
  assumes "validateTopicName (topicName config) = Inr ()"
    and "ps_topic pubsub (topicName config) = Inr t"
    and "ps_exists pubsub s t = Inr True"
  shows "createTopic pubsub JSON_parse s config =
     (if skipIfExists config
      then \<lparr>result = \<lparr>success = True, res_topicName = Some (ps_name pubsub t),
                       created = Some False, error = None\<rparr>,
            final = s, calls = [TopicExists t (Inr True)], logs = []\<rparr>
      else \<lparr>result = \<lparr>success = False, res_topicName = None, created = None,
                       error = Some (already_exists (topicName config))\<rparr>,
            final = s, calls = [TopicExists t (Inr True)],
            logs = [ErrorLine (''Failed to create topic: '' @ already_exists (topicName config))]\<rparr>)"
  using assms
  by (simp add: createTopic_def createTopic_try_def checkTopicExists_found already_exists_def)

lemma existing_call:
  assumes "TopicExists t (Inr True) \<in> set (calls (createTopic pubsub JSON_parse s config))"
  shows "validateTopicName (topicName config) = Inr () \<and>
         ps_topic pubsub (topicName config) = Inr t \<and> ps_exists pubsub s t = Inr True"
proof (cases "validateTopicName (topicName config)")
  case (Inl e)
  with assms show ?thesis
    by (simp add: createTopic_def createTopic_try_def)
next
  case (Inr u)
  obtain ec cs lg where ck: "checkTopicExists pubsub s (topicName config) = (ec, cs, lg)"
    by (cases "checkTopicExists pubsub s (topicName config)") auto
  have "TopicExists t (Inr True) \<in> set cs"
  proof (cases "if exists ec then topic ec else None")
    case None
    obtain r s' cs' lg' where cn: "create_new pubsub JSON_parse s config cs lg = (r, s', cs', lg')"
      by (cases "create_new pubsub JSON_parse s config cs lg") auto
    with assms Inr ck None have "TopicExists t (Inr True) \<in> set cs'"
      by (cases r) (simp_all add: createTopic_def createTopic_try_def)
    with create_new_calls [OF cn] show ?thesis by simp
  next
    case (Some t')
    with assms Inr ck show ?thesis
      by (simp add: createTopic_def createTopic_try_def split: if_splits)
  qed
  with checkTopicExists_calls [OF ck] Inr show ?thesis by simp
qed

section \<open>Runs against the in-memory service\<close>

lemma valid_events: "validateTopicName ''events'' = Inr ()"
  by (simp add: validateTopicName_def rx_test_topicPattern spec_topic_name_def letters_def
      digits_def)

lemmas fake_eval = fake_pubsub_def denied_pubsub_def full_name_def events_present_def
  events_absent_def malformed_config_def retention_config_def plain_config_def

lemma fake_existing_call:
  "TopicExists ''projects/p/topics/events'' (Inr True) \<in>
     set (calls (createTopic (fake_pubsub ''p'' None) JSON_parse_samples events_present config))"
  if "topicName config = ''events''" for config
proof -
  have "createTopic (fake_pubsub ''p'' None) JSON_parse_samples events_present config =
     (if skipIfExists config
      then \<lparr>result = \<lparr>success = True,
                       res_topicName = Some (ps_name (fake_pubsub ''p'' None) ''projects/p/topics/events''),
                       created = Some False, error = None\<rparr>,
            final = events_present, calls = [TopicExists ''projects/p/topics/events'' (Inr True)],
            logs = []\<rparr>
      else \<lparr>result = \<lparr>success = False, res_topicName = None, created = None,
                       error = Some (already_exists (topicName config))\<rparr>,
            final = events_present, calls = [TopicExists ''projects/p/topics/events'' (Inr True)],
            logs = [ErrorLine (''Failed to create topic: '' @ already_exists (topicName config))]\<rparr>)"
    by (rule createTopic_existing) (simp_all add: that valid_events fake_eval)
  then show ?thesis by simp
qed

text \<open>
  C1. When the topic exists (the existence query of the run answers true, which implies
  that the name passed \<open>validateTopicName\<close>) and \<open>skipIfExists\<close> is set, \<open>createTopic\<close>
  returns success with \<open>created = false\<close> and the name of the existing topic; the only call
  to the service is the existence query, the state of the service is unchanged, and the
  run is the same for any labels, KMS key, retention text and JSON parser: they are not
  looked at.
\<close>

theorem createTopic_skip_existing:
  assumes "skipIfExists config"
    and "TopicExists t (Inr True) \<in> set (calls (createTopic pubsub JSON_parse s config))"
  shows "result (createTopic pubsub JSON_parse s config) =
           \<lparr>success = True, res_topicName = Some (ps_name pubsub t), created = Some False,
            error = None\<rparr> \<and>
         calls (createTopic pubsub JSON_parse s config) = [TopicExists t (Inr True)] \<and>
         final (createTopic pubsub JSON_parse s config) = s \<and>
         (\<forall>l k d parse'.
            createTopic pubsub parse' s
              (config\<lparr>labels := l, kmsKeyName := k, messageRetentionDuration := d\<rparr>) =
            createTopic pubsub JSON_parse s config)"
proof -
  from existing_call [OF assms(2)]
  have v: "validateTopicName (topicName config) = Inr ()"
    and t: "ps_topic pubsub (topicName config) = Inr t" and e: "ps_exists pubsub s t = Inr True"
    by simp_all
  have run: "createTopic pubsub parse' s config' =
      \<lparr>result = \<lparr>success = True, res_topicName = Some (ps_name pubsub t), created = Some False,
                  error = None\<rparr>,
       final = s, calls = [TopicExists t (Inr True)], logs = []\<rparr>"
    if "topicName config' = topicName config" "skipIfExists config'" for parse' config'
    using that v t e by (simp add: createTopic_existing)
  have "createTopic pubsub parse' s
          (config\<lparr>labels := l, kmsKeyName := k, messageRetentionDuration := d\<rparr>) =
        createTopic pubsub JSON_parse s config" for l k d parse'
    using assms(1) by (simp add: run)
  with assms(1) show ?thesis by (simp add: run)
qed

theorem createTopic_skip_existing_witness:
  "result (createTopic (fake_pubsub ''p'' None) JSON_parse_samples events_present
            (malformed_config True)) =
     \<lparr>success = True, res_topicName = Some ''projects/p/topics/events'', created = Some False,
      error = None\<rparr> \<and>
   calls (createTopic (fake_pubsub ''p'' None) JSON_parse_samples events_present
            (malformed_config True)) =
     [TopicExists ''projects/p/topics/events'' (Inr True)] \<and>
   final (createTopic (fake_pubsub ''p'' None) JSON_parse_samples events_present
            (malformed_config True)) = events_present"
  using createTopic_skip_existing [of "malformed_config True" "''projects/p/topics/events''"
      "fake_pubsub ''p'' None" JSON_parse_samples events_present]
    fake_existing_call [of "malformed_config True"]
  by (simp add: malformed_config_def fake_pubsub_def)

text \<open>
  C5. When the topic exists (the existence query of the run answers true) and
  \<open>skipIfExists\<close> is not set, \<open>createTopic\<close> returns \<open>success = false\<close> with an error message
  that contains \<^verbatim>\<open>already exists\<close>, names the topic and tells the caller to set
  skip-if-exists; the only call to the service is the existence query.
\<close>

theorem createTopic_existing_fails:
  assumes "\<not> skipIfExists config"
    and "TopicExists t (Inr True) \<in> set (calls (createTopic pubsub JSON_parse s config))"
  shows "result (createTopic pubsub JSON_parse s config) =
           \<lparr>success = False, res_topicName = None, created = None,
            error = Some (already_exists (topicName config))\<rparr> \<and>
         sublist ''already exists'' (already_exists (topicName config)) \<and>
         sublist (quoted (topicName config)) (already_exists (topicName config)) \<and>
         sublist ''Set skip-if-exists=true'' (already_exists (topicName config)) \<and>
         calls (createTopic pubsub JSON_parse s config) = [TopicExists t (Inr True)] \<and>
         final (createTopic pubsub JSON_parse s config) = s"
proof -
  from existing_call [OF assms(2)]
  have "validateTopicName (topicName config) = Inr ()"
    and "ps_topic pubsub (topicName config) = Inr t" and "ps_exists pubsub s t = Inr True"
    by simp_all
  with assms(1) have run: "createTopic pubsub JSON_parse s config =
      \<lparr>result = \<lparr>success = False, res_topicName = None, created = None,
                  error = Some (already_exists (topicName config))\<rparr>,
       final = s, calls = [TopicExists t (Inr True)],
       logs = [ErrorLine (''Failed to create topic: '' @ already_exists (topicName config))]\<rparr>"
    by (simp add: createTopic_existing)
  have "already_exists n = (''Topic '' @ quoted n @ '' '') @ ''already exists'' @
      ''. Set skip-if-exists=true to succeed when topic exists.''" for n
    by (simp add: already_exists_def)
  then have s1: "sublist ''already exists'' (already_exists n)" for n
    by (metis sublist_appendI)
  have "already_exists n = ''Topic '' @ quoted n @
      '' already exists. Set skip-if-exists=true to succeed when topic exists.''" for n
    by (simp add: already_exists_def)
  then have s2: "sublist (quoted n) (already_exists n)" for n
    by (metis sublist_appendI)
  have "already_exists n = (''Topic '' @ quoted n @ '' already exists. '') @
      ''Set skip-if-exists=true'' @ '' to succeed when topic exists.''" for n
    by (simp add: already_exists_def)
  then have s3: "sublist ''Set skip-if-exists=true'' (already_exists n)" for n
    by (metis sublist_appendI)
  from run s1 s2 s3 show ?thesis by simp
qed

theorem createTopic_existing_fails_witness:
  "result (createTopic (fake_pubsub ''p'' None) JSON_parse_samples events_present
            (malformed_config False)) =
     \<lparr>success = False, res_topicName = None, created = None,
      error = Some (''Topic '' @ quoted ''events'' @
        '' already exists. Set skip-if-exists=true to succeed when topic exists.'')\<rparr> \<and>
   calls (createTopic (fake_pubsub ''p'' None) JSON_parse_samples events_present
            (malformed_config False)) =
     [TopicExists ''projects/p/topics/events'' (Inr True)]"
  using createTopic_existing_fails [of "malformed_config False" "''projects/p/topics/events''"
      "fake_pubsub ''p'' None" JSON_parse_samples events_present]
    fake_existing_call [of "malformed_config False"]
  by (simp add: malformed_config_def already_exists_def)

section \<open>A failing existence query\<close>

lemma create_new_attempts:
  "\<exists>r s' cs' lg' x. create_new pubsub JSON_parse s config cs lg = (r, s', cs', lg') \<and>
     CreateTopic (topicName config) x \<in> set cs' \<and> set lg \<subseteq> set lg'"
  by (auto simp: create_new_def Let_def split: sum.splits prod.splits)

text \<open>
  C4. When the existence query fails (the \<^verbatim>\<open>try\<close> block of \<open>checkTopicExists\<close> throws,
  whatever the topic name and the reason), \<open>checkTopicExists\<close> does not throw: it logs a
  warning and returns \<open>exists = false\<close> without a topic handle. \<open>createTopic\<close> then does
  not end with that failure but goes on to the creation call.
\<close>

theorem checkTopicExists_swallows_failure:
  assumes "checkTopicExists_try pubsub s n = (Inl e, cs)"
  shows "checkTopicExists pubsub s n =
           (\<lparr>exists = False, topic = None\<rparr>, cs,
            [Warning (''Failed to check if topic exists: '' @ e)]) \<and>
         (\<forall>config JSON_parse. topicName config = n \<longrightarrow> validateTopicName n = Inr () \<longrightarrow>
            (\<exists>x. CreateTopic n x \<in> set (calls (createTopic pubsub JSON_parse s config))) \<and>
            Warning (''Failed to check if topic exists: '' @ e)
              \<in> set (logs (createTopic pubsub JSON_parse s config)))"
proof (intro conjI allI impI)
  show ck: "checkTopicExists pubsub s n =
           (\<lparr>exists = False, topic = None\<rparr>, cs,
            [Warning (''Failed to check if topic exists: '' @ e)])"
    using assms by (simp add: checkTopicExists_def)
  fix config :: TopicConfig and JSON_parse
  assume n: "topicName config = n" and v: "validateTopicName n = Inr ()"
  let ?w = "Warning (''Failed to check if topic exists: '' @ e)"
  from create_new_attempts [of pubsub JSON_parse s config cs "[?w]"]
  obtain r s' cs' lg' x where cn: "create_new pubsub JSON_parse s config cs [?w] = (r, s', cs', lg')"
    and x: "CreateTopic (topicName config) x \<in> set cs'" and w: "?w \<in> set lg'"
    by auto
  have run: "createTopic_try pubsub JSON_parse s config = (r, s', cs', lg')"
    using n v ck cn by (simp add: createTopic_try_def)
  from run x n show "\<exists>x. CreateTopic n x \<in> set (calls (createTopic pubsub JSON_parse s config))"
    by (cases r) (auto simp: createTopic_def)
  from run w show "?w \<in> set (logs (createTopic pubsub JSON_parse s config))"
    by (cases r) (auto simp: createTopic_def)
qed

theorem checkTopicExists_swallows_failure_witness:
  "checkTopicExists (denied_pubsub ''p'') events_present ''events'' =
     (\<lparr>exists = False, topic = None\<rparr>,
      [TopicExists ''projects/p/topics/events'' (Inl ''7 PERMISSION_DENIED'')],
      [Warning ''Failed to check if topic exists: 7 PERMISSION_DENIED'']) \<and>
   (\<exists>x. CreateTopic ''events'' x
      \<in> set (calls (createTopic (denied_pubsub ''p'') JSON_parse_samples events_present
                  (plain_config False))))"
proof -
  have t: "checkTopicExists_try (denied_pubsub ''p'') events_present ''events'' =
      (Inl ''7 PERMISSION_DENIED'',
       [TopicExists ''projects/p/topics/events'' (Inl ''7 PERMISSION_DENIED'')])"
    by (simp add: checkTopicExists_try_def fake_eval)
  from checkTopicExists_swallows_failure [OF t] valid_events show ?thesis
    by (simp add: plain_config_def)
qed

section \<open>A failing metadata update\<close>










section \<open>Repeated invocations\<close>

text \<open>A run that makes no creation call leaves the service as it found it.\<close>

lemma no_creation_call:
  assumes "\<forall>x. CreateTopic (topicName config) x
             \<notin> set (calls (createTopic pubsub JSON_parse s config))"
  shows "final (createTopic pubsub JSON_parse s config) = s \<and>
         ((\<exists>e. validateTopicName (topicName config) = Inl e) \<or>
          (\<exists>t. TopicExists t (Inr True) \<in> set (calls (createTopic pubsub JSON_parse s config))))"
proof (cases "validateTopicName (topicName config)")
  case (Inl e)
  then show ?thesis
    by (simp add: createTopic_def createTopic_try_def)
next
  case (Inr u)
  obtain ec cs lg where ck: "checkTopicExists pubsub s (topicName config) = (ec, cs, lg)"
    by (cases "checkTopicExists pubsub s (topicName config)") auto
  show ?thesis
  proof (cases "if exists ec then topic ec else None")
    case None
    from create_new_attempts [of pubsub JSON_parse s config cs lg]
    obtain r s' cs' lg' x where cn: "create_new pubsub JSON_parse s config cs lg = (r, s', cs', lg')"
      and x: "CreateTopic (topicName config) x \<in> set cs'"
      by blast
    from Inr ck None cn have "calls (createTopic pubsub JSON_parse s config) = cs'"
      by (cases r) (simp_all add: createTopic_def createTopic_try_def)
    with x assms show ?thesis by auto
  next
    case (Some t)
    then have ex: "exists ec" and tp: "topic ec = Some t"
      by (simp_all split: if_splits)
    from ck ex tp have found: "ps_topic pubsub (topicName config) = Inr t"
      "ps_exists pubsub s t = Inr True"
      by (auto simp: checkTopicExists_unfold split: sum.splits if_splits)
    from createTopic_existing [OF _ found, of JSON_parse] Inr
    have "final (createTopic pubsub JSON_parse s config) = s"
      and "TopicExists t (Inr True) \<in> set (calls (createTopic pubsub JSON_parse s config))"
      by (simp_all split: if_splits)
    then show ?thesis by blast
  qed
qed

lemma fake_existing_calls:
  "calls (createTopic (fake_pubsub ''p'' None) JSON_parse_samples events_present config) =
     [TopicExists ''projects/p/topics/events'' (Inr True)]"
  if "topicName config = ''events''" for config
proof -
  have "createTopic (fake_pubsub ''p'' None) JSON_parse_samples events_present config =
     (if skipIfExists config
      then \<lparr>result = \<lparr>success = True,
                       res_topicName = Some (ps_name (fake_pubsub ''p'' None) ''projects/p/topics/events''),
                       created = Some False, error = None\<rparr>,
            final = events_present, calls = [TopicExists ''projects/p/topics/events'' (Inr True)],
            logs = []\<rparr>
      else \<lparr>result = \<lparr>success = False, res_topicName = None, created = None,
                       error = Some (already_exists (topicName config))\<rparr>,
            final = events_present, calls = [TopicExists ''projects/p/topics/events'' (Inr True)],
            logs = [ErrorLine (''Failed to create topic: '' @ already_exists (topicName config))]\<rparr>)"
    by (rule createTopic_existing) (simp_all add: that valid_events fake_eval)
  then show ?thesis by simp
qed

text \<open>
  C8, as amended. Two invocations of \<open>createTopic\<close> in sequence with the same
  configuration having \<open>skipIfExists\<close> set, the second on the state that the first left:
  when the first invocation makes no creation call, that is, when it rejects the topic
  name or finds the topic existing, it leaves the service unchanged and the second
  \<open>TopicResult\<close> is identical to the first; when the topic is found existing both are
  success with \<open>created = false\<close> and the name of the topic.
\<close>

theorem createTopic_idempotent:
  assumes "skipIfExists config"
    and "\<forall>x. CreateTopic (topicName config) x
           \<notin> set (calls (createTopic pubsub JSON_parse s config))"
  shows "final (createTopic pubsub JSON_parse s config) = s \<and>
         result (createTopic pubsub JSON_parse
                   (final (createTopic pubsub JSON_parse s config)) config) =
           result (createTopic pubsub JSON_parse s config) \<and>
         ((\<exists>e. validateTopicName (topicName config) = Inl e) \<or>
          (\<exists>t. TopicExists t (Inr True) \<in> set (calls (createTopic pubsub JSON_parse s config)))) \<and>
         (\<forall>t. TopicExists t (Inr True) \<in> set (calls (createTopic pubsub JSON_parse s config)) \<longrightarrow>
            result (createTopic pubsub JSON_parse s config) =
              \<lparr>success = True, res_topicName = Some (ps_name pubsub t), created = Some False,
               error = None\<rparr>)"
proof -
  from no_creation_call [OF assms(2)]
  have f: "final (createTopic pubsub JSON_parse s config) = s"
    and c: "(\<exists>e. validateTopicName (topicName config) = Inl e) \<or>
          (\<exists>t. TopicExists t (Inr True) \<in> set (calls (createTopic pubsub JSON_parse s config)))"
    by simp_all
  have "result (createTopic pubsub JSON_parse s config) =
          \<lparr>success = True, res_topicName = Some (ps_name pubsub t), created = Some False,
           error = None\<rparr>"
    if "TopicExists t (Inr True) \<in> set (calls (createTopic pubsub JSON_parse s config))" for t
  proof -
    from existing_call [OF that]
    have "validateTopicName (topicName config) = Inr ()"
      and "ps_topic pubsub (topicName config) = Inr t" and "ps_exists pubsub s t = Inr True"
      by simp_all
    with assms(1) show ?thesis by (simp add: createTopic_existing)
  qed
  with f c show ?thesis by simp
qed

theorem createTopic_idempotent_witness:
  "final (createTopic (fake_pubsub ''p'' None) JSON_parse_samples events_present
            (plain_config True)) = events_present \<and>
   result (createTopic (fake_pubsub ''p'' None) JSON_parse_samples
             (final (createTopic (fake_pubsub ''p'' None) JSON_parse_samples events_present
                       (plain_config True)))
             (plain_config True)) =
     result (createTopic (fake_pubsub ''p'' None) JSON_parse_samples events_present
               (plain_config True)) \<and>
   result (createTopic (fake_pubsub ''p'' None) JSON_parse_samples events_present
             (plain_config True)) =
     \<lparr>success = True, res_topicName = Some ''projects/p/topics/events'', created = Some False,
      error = None\<rparr>"
proof -
  have n: "topicName (plain_config True) = ''events''" and k: "skipIfExists (plain_config True)"
    by (simp_all add: plain_config_def)
  have c: "calls (createTopic (fake_pubsub ''p'' None) JSON_parse_samples events_present
             (plain_config True)) = [TopicExists ''projects/p/topics/events'' (Inr True)]"
    by (rule fake_existing_calls [OF n])
  then have h: "\<forall>x. CreateTopic (topicName (plain_config True)) x
      \<notin> set (calls (createTopic (fake_pubsub ''p'' None) JSON_parse_samples events_present
                     (plain_config True)))"
    by simp
  from createTopic_idempotent [OF k h] c show ?thesis
    by (simp add: fake_pubsub_def)
qed

text \<open>
  The claim as stated fails when the first invocation itself creates the topic: nothing
  but the invocation changes the service, and the second invocation reports
  \<open>created = false\<close> where the first reported \<open>created = true\<close>.
\<close>

theorem createTopic_idempotent_counterexample:
  "skipIfExists (plain_config True) \<and>
   result (createTopic (fake_pubsub ''p'' None) JSON_parse_samples events_absent
             (plain_config True)) =
     \<lparr>success = True, res_topicName = Some ''projects/p/topics/events'', created = Some True,
      error = None\<rparr> \<and>
   result (createTopic (fake_pubsub ''p'' None) JSON_parse_samples
             (final (createTopic (fake_pubsub ''p'' None) JSON_parse_samples events_absent
                       (plain_config True)))
             (plain_config True)) =
     \<lparr>success = True, res_topicName = Some ''projects/p/topics/events'', created = Some False,
      error = None\<rparr>"
proof -
  have n: "topicName (plain_config True) = ''events''" and k: "skipIfExists (plain_config True)"
    by (simp_all add: plain_config_def)
  have first: "createTopic (fake_pubsub ''p'' None) JSON_parse_samples events_absent
      (plain_config True) =
     \<lparr>result = \<lparr>success = True, res_topicName = Some ''projects/p/topics/events'',
                 created = Some True, error = None\<rparr>,
      final = events_present,
      calls = [TopicExists ''projects/p/topics/events'' (Inr False),
               CreateTopic ''events'' (Inr ''projects/p/topics/events'')],
      logs = []\<rparr>"
    by (simp add: createTopic_def createTopic_try_def n valid_events checkTopicExists_unfold
        create_new_def fake_pubsub_def full_name_def events_absent_def events_present_def Let_def)
      (simp add: plain_config_def given_def)
  have second: "createTopic (fake_pubsub ''p'' None) JSON_parse_samples events_present
      (plain_config True) =
     \<lparr>result = \<lparr>success = True, res_topicName = Some ''projects/p/topics/events'',
                 created = Some False, error = None\<rparr>,
      final = events_present, calls = [TopicExists ''projects/p/topics/events'' (Inr True)],
      logs = []\<rparr>"
    by (simp add: createTopic_def createTopic_try_def n valid_events checkTopicExists_unfold
        fake_pubsub_def full_name_def events_present_def)
      (simp add: plain_config_def)
  from k first second show ?thesis by simp
qed

end
